theory Spec2Isabelle
  imports Main "HOL-Library.Word" "HOL-Library.AList"
begin

section \<open>Data model\<close>

text \<open>
  Machine integers of the C++ source: \<open>uint32_t\<close> and \<open>uint64_t\<close> are unsigned
  words, \<open>int\<close> is a 32-bit word read as two's complement (\<open>sint\<close> reads the
  signed value). Signed overflow is undefined in C++; the model gives \<open>+\<close> on \<open>int\<close> the
  wrap-around of the hardware, so that every sum is defined. A \<open>double\<close> is only copied
  and logged by the engine, never computed with, so it is kept as its 64-bit pattern.
\<close>

type_synonym u32 = "32 word"
type_synonym u64 = "64 word"
type_synonym i32 = "32 word"
type_synonym f64 = "64 word"

text \<open>
  \<open>Contract\<close> (core/contract.h) is referenced through \<open>const Contract*\<close>; the engine
  reads \<open>index\<close> and \<open>ticker\<close> only. A non-null pointer is the record itself, the
  null pointer of \<open>ContractTable::get_by_index\<close> is \<open>None\<close>.
\<close>

record Contract =
  index :: u32
  ticker :: string

text \<open>\<open>struct OrderReq\<close> of core/protocol.h.\<close>

record OrderReq =
  engine_order_id :: u64
  contract :: Contract
  type :: u32
  direction :: u32
  offset :: u32
  volume :: i32
  price :: f64
  flags :: u32

text \<open>
  \<open>struct TraderOrderReq\<close>, \<open>TraderCancelReq\<close>, \<open>TraderCancelTickerReq\<close> and
  \<open>TraderCommand\<close> of core/protocol.h. Field names that occur in several structs carry
  a prefix here (\<open>req_volume\<close> is \<open>TraderOrderReq::volume\<close>, \<open>cmd_type\<close> is
  \<open>TraderCommand::type\<close>, and so on). The three members of the anonymous union are
  three independent fields, which covers every byte content of the union.
\<close>

record TraderOrderReq =
  req_user_order_id :: u32
  req_ticker_index :: u32
  req_direction :: u32
  req_offset :: u32
  req_type :: u32
  req_volume :: i32
  req_price :: f64
  req_flags :: u32
  without_check :: bool

record TraderCancelReq =
  cancel_order_id :: u64

record TraderCancelTickerReq =
  cancel_ticker_index :: u32

record TraderCommand =
  magic :: u32
  cmd_type :: u32
  cmd_strategy_id :: string
  order_req :: TraderOrderReq
  cancel_req :: TraderCancelReq
  cancel_ticker_req :: TraderCancelTickerReq

definition TRADER_CMD_MAGIC :: u32 where
  "TRADER_CMD_MAGIC = 0x1709394"

definition CMD_NEW_ORDER :: u32 where
  "CMD_NEW_ORDER = 1"

definition CMD_CANCEL_ORDER :: u32 where
  "CMD_CANCEL_ORDER = 2"

definition CMD_CANCEL_TICKER :: u32 where
  "CMD_CANCEL_TICKER = 3"

definition CMD_CANCEL_ALL :: u32 where
  "CMD_CANCEL_ALL = 4"

text \<open>
  Modelled from the spec: \<open>OrderStatus\<close> and \<open>struct Order\<close> are declared in a header
  that is not part of the sources at hand. The spec lists the status values
  SUBMITTING, ACCEPTED, CANCELING, DONE and the fields of an Order: the embedded
  request, \<open>user_order_id\<close>, \<open>strategy_id\<close>, the broker's \<open>order_id\<close>, \<open>status\<close>,
  \<open>accepted\<close>, and the integers \<open>traded_volume\<close> and \<open>canceled_volume\<close>.
\<close>

datatype OrderStatus = SUBMITTING | ACCEPTED | CANCELING | DONE

record Order =
  req :: OrderReq
  user_order_id :: u32
  strategy_id :: string
  order_id :: u64
  status :: OrderStatus
  accepted :: bool
  traded_volume :: i32
  canceled_volume :: i32

text \<open>
  Modelled from the spec: the \<open>TradeType\<close> tag is declared in a header that is not part
  of the sources at hand. The engine names five values; the \<open>else if\<close> chain of
  \<open>on_primary_market_traded\<close> has no final \<open>else\<close>, so any further value falls through
  it, which \<open>OTHER_TRADE_TYPE\<close> stands for.
\<close>

datatype TradeType =
    SECONDARY_MARKET
  | PRIMARY_MARKET
  | ACQUIRED_STOCK
  | RELEASED_STOCK
  | CASH_SUBSTITUTION
  | OTHER_TRADE_TYPE

text \<open>
  Modelled from the spec: the gateway's response structs are declared in a header that
  is not part of the sources at hand. Each record holds the fields that the engine's
  callbacks read, with the types of the Order fields they are stored into or compared
  with (\<open>acc_\<close>, \<open>rej_\<close>, \<open>trd_\<close>, \<open>cxl_\<close>, \<open>crj_\<close> prefix the fields of
  \<open>OrderAcceptedRsp\<close>, \<open>OrderRejectedRsp\<close>, \<open>OrderTradedRsp\<close>, \<open>OrderCanceledRsp\<close>
  and \<open>OrderCancelRejectedRsp\<close>).
\<close>

record OrderAcceptedRsp =
  acc_engine_order_id :: u64
  acc_order_id :: u64

record OrderRejectedRsp =
  rej_engine_order_id :: u64
  rej_reason :: string

record OrderTradedRsp =
  trd_engine_order_id :: u64
  trd_order_id :: u64
  trade_type :: TradeType
  trd_volume :: i32
  trd_price :: f64

record OrderCanceledRsp =
  cxl_engine_order_id :: u64
  cxl_canceled_volume :: i32

record OrderCancelRejectedRsp =
  crj_engine_order_id :: u64
  crj_reason :: string

section \<open>Effects\<close>

text \<open>
  Everything the engine does besides changing its own fields is recorded, in order, in
  a trace: taking and releasing \<open>mutex_\<close>, each \<open>spdlog\<close> call (its level only), each
  call of the gateway and each call of a risk manager hook, with the arguments as they
  are at the time of the call (the hooks receive a pointer to the order, so the event
  holds the order's fields at that moment).

  The risk manager's code is not part of the sources at hand. Following the spec, its
  hooks other than \<open>check_order_req\<close> are pure side effect on the risk manager's own
  books: they do not write to the order they are given or to the registry.
\<close>

datatype LogLevel = Debug | Info | Warn | Error

datatype event =
    MutexLock
  | MutexUnlock
  | Log LogLevel
  | GatewaySendOrder OrderReq
  | GatewayCancelOrder u64
  | RiskCheckOrderReq Order
  | RiskOnOrderSent Order
  | RiskOnOrderAccepted Order
  | RiskOnOrderTraded Order OrderTradedRsp
  | RiskOnOrderCanceled Order i32
  | RiskOnOrderRejected Order i32
  | RiskOnOrderCompleted Order

text \<open>
  The collaborators whose code is outside the engine are parameters: the contract
  table, the answer of \<open>RiskManager::check_order_req\<close> and the answer of the gateway's
  \<open>send_order\<close> (both may depend on everything that happened before, so they take the
  trace), and the two error codes of core/error_code.h whose values the engine only
  passes on.
\<close>

record env =
  get_by_index :: "u32 \<Rightarrow> Contract option"
  check_order_req :: "event list \<Rightarrow> Order \<Rightarrow> i32"
  gateway_send_order :: "event list \<Rightarrow> OrderReq \<Rightarrow> bool"
  ERR_SEND_FAILED :: i32
  ERR_REJECTED :: i32

text \<open>
  Modelled from the spec: core/error_code.h is not part of the sources at hand; the spec
  gives \<open>NO_ERROR\<close> the value 0.
\<close>

definition NO_ERROR :: i32 where
  "NO_ERROR = 0"

section \<open>The order registry\<close>

text \<open>
  Modelled from the spec: \<open>order_map_\<close> is declared in the header that is not part of
  the sources at hand; the spec has it as a map from engine order id to Order. It is an
  association list kept in ascending key order, which is then the order in which
  \<open>cancel_for_ticker\<close> and \<open>cancel_all\<close> walk it (no property below depends on that
  order). \<open>find\<close> is \<open>map_of\<close>; \<open>emplace\<close> inserts only when the key is absent; writing
  through \<open>iter->second\<close> replaces the value in place; \<open>erase\<close> removes the key.
\<close>

type_synonym registry = "(u64 \<times> Order) list"

definition find_order :: "registry \<Rightarrow> u64 \<Rightarrow> Order option" where
  "find_order m k = map_of m k"

definition emplace :: "u64 \<Rightarrow> Order \<Rightarrow> registry \<Rightarrow> registry" where
  "emplace k v m =
     (case map_of m k of
        Some _ \<Rightarrow> m
      | None \<Rightarrow> insort_key fst (k, v) m)"

definition assign :: "u64 \<Rightarrow> Order \<Rightarrow> registry \<Rightarrow> registry" where
  "assign k v m = AList.update k v m"

definition erase :: "u64 \<Rightarrow> registry \<Rightarrow> registry" where
  "erase k m = AList.delete k m"

section \<open>The engine\<close>

text \<open>
  Modelled from the spec: \<open>next_engine_order_id()\<close> is declared in the header that is
  not part of the sources at hand; the spec has it hand out monotonically increasing
  64-bit ids, the first order getting 1. It returns the counter \<open>next_id\<close> and
  increments it.

  The other fields are those of \<open>TradingEngine\<close> that the command and order callbacks
  touch. Account, portfolio and market data snapshot are not read or written by them.
\<close>

record engine =
  order_map :: registry
  next_id :: u64
  trace :: "event list"

definition init_engine :: engine where
  "init_engine = \<lparr>order_map = [], next_id = 1, trace = []\<rparr>"

definition emit :: "event \<Rightarrow> engine \<Rightarrow> engine" where
  "emit e s = s\<lparr>trace := trace s @ [e]\<rparr>"

text \<open>Lines 215 to 234 of \<open>send_order\<close>: the push to the gateway and what follows.\<close>

definition send_order_push :: "env \<Rightarrow> Order \<Rightarrow> engine \<Rightarrow> bool \<times> engine" where
  "send_order_push env order s =
     (let s1 = emit (GatewaySendOrder (req order)) s in
      if \<not> gateway_send_order env (trace s) (req order) then
        (False,
         emit MutexUnlock
           (emit (RiskOnOrderRejected order (ERR_SEND_FAILED env))
              (emit (Log Error) s1)))
      else
        (True,
         emit MutexUnlock
           (emit (Log Debug)
              (emit (RiskOnOrderSent order)
                 (s1\<lparr>order_map := emplace (engine_order_id (req order)) order (order_map s1)\<rparr>)))))"

text \<open>Lines 189 to 201 of \<open>send_order\<close>: the value-initialised Order, filled from the command.\<close>

definition make_order :: "Contract \<Rightarrow> TraderCommand \<Rightarrow> u64 \<Rightarrow> Order" where
  "make_order c cmd eid =
     \<lparr>req =
        \<lparr>engine_order_id = eid,
         contract = c,
         type = req_type (order_req cmd),
         direction = req_direction (order_req cmd),
         offset = req_offset (order_req cmd),
         volume = req_volume (order_req cmd),
         price = req_price (order_req cmd),
         flags = req_flags (order_req cmd)\<rparr>,
      user_order_id = req_user_order_id (order_req cmd),
      strategy_id = cmd_strategy_id cmd,
      order_id = 0,
      status = SUBMITTING,
      accepted = False,
      traded_volume = 0,
      canceled_volume = 0\<rparr>"

definition send_order :: "env \<Rightarrow> TraderCommand \<Rightarrow> engine \<Rightarrow> bool \<times> engine" where
  "send_order env cmd s =
     (case get_by_index env (req_ticker_index (order_req cmd)) of
        None \<Rightarrow> (False, emit (Log Error) s)
      | Some c \<Rightarrow>
          let order = make_order c cmd (next_id s);
              s1 = emit MutexLock (s\<lparr>next_id := next_id s + 1\<rparr>)
          in
            if \<not> without_check (order_req cmd) then
              (let s2 = emit (RiskCheckOrderReq order) s1;
                   error_code = check_order_req env (trace s1) order
               in
                 if error_code \<noteq> NO_ERROR then
                   (False,
                    emit MutexUnlock
                      (emit (RiskOnOrderRejected order error_code)
                         (emit (Log Error) s2)))
                 else send_order_push env order s2)
            else send_order_push env order s1)"

definition cancel_order :: "u64 \<Rightarrow> engine \<Rightarrow> engine" where
  "cancel_order oid s = emit (GatewayCancelOrder oid) s"

definition cancel_for_ticker :: "u32 \<Rightarrow> engine \<Rightarrow> engine" where
  "cancel_for_ticker ticker_index s =
     emit MutexUnlock
       (fold (\<lambda>(k, order) s'.
                if ticker_index = index (contract (req order))
                then emit (GatewayCancelOrder (order_id order)) s'
                else s')
          (order_map s) (emit MutexLock s))"

definition cancel_all :: "engine \<Rightarrow> engine" where
  "cancel_all s =
     emit MutexUnlock
       (fold (\<lambda>(k, order) s'. emit (GatewayCancelOrder (order_id order)) s')
          (order_map s) (emit MutexLock s))"

definition execute_cmd :: "env \<Rightarrow> TraderCommand \<Rightarrow> engine \<Rightarrow> engine" where
  "execute_cmd env cmd s =
     (if magic cmd \<noteq> TRADER_CMD_MAGIC then emit (Log Error) s
      else if cmd_type cmd = CMD_NEW_ORDER then
        snd (send_order env cmd (emit (Log Debug) s))
      else if cmd_type cmd = CMD_CANCEL_ORDER then
        cancel_order (cancel_order_id (cancel_req cmd)) (emit (Log Debug) s)
      else if cmd_type cmd = CMD_CANCEL_TICKER then
        cancel_for_ticker (cancel_ticker_index (cancel_ticker_req cmd)) (emit (Log Debug) s)
      else if cmd_type cmd = CMD_CANCEL_ALL then
        cancel_all (emit (Log Debug) s)
      else emit (Log Error) s)"

definition on_order_accepted :: "OrderAcceptedRsp \<Rightarrow> engine \<Rightarrow> engine" where
  "on_order_accepted rsp s =
     (let s1 = emit MutexLock s in
      case find_order (order_map s1) (acc_engine_order_id rsp) of
        None \<Rightarrow> emit MutexUnlock (emit (Log Warn) s1)
      | Some order0 \<Rightarrow>
          if accepted order0 then emit MutexUnlock s1
          else
            (let order1 = order0\<lparr>order_id := acc_order_id rsp, accepted := True\<rparr>;
                 s2 = s1\<lparr>order_map := assign (acc_engine_order_id rsp) order1 (order_map s1)\<rparr>
             in emit MutexUnlock (emit (Log Info) (emit (RiskOnOrderAccepted order1) s2))))"

definition on_order_rejected :: "env \<Rightarrow> OrderRejectedRsp \<Rightarrow> engine \<Rightarrow> engine" where
  "on_order_rejected env rsp s =
     (let s1 = emit MutexLock s in
      case find_order (order_map s1) (rej_engine_order_id rsp) of
        None \<Rightarrow> emit MutexUnlock (emit (Log Warn) s1)
      | Some order0 \<Rightarrow>
          (let s2 = emit (Log Error) (emit (RiskOnOrderRejected order0 (ERR_REJECTED env)) s1)
           in emit MutexUnlock
                (s2\<lparr>order_map := erase (rej_engine_order_id rsp) (order_map s2)\<rparr>)))"

definition on_primary_market_traded :: "OrderTradedRsp \<Rightarrow> engine \<Rightarrow> engine" where
  "on_primary_market_traded rsp s =
     (let s1 = emit MutexLock s in
      case find_order (order_map s1) (trd_engine_order_id rsp) of
        None \<Rightarrow> emit MutexUnlock (emit (Log Warn) s1)
      | Some order0 \<Rightarrow>
          (let order1 = (if \<not> accepted order0 then order0\<lparr>accepted := True\<rparr> else order0);
               s2 = (if \<not> accepted order0
                     then emit (Log Info) (emit (RiskOnOrderAccepted order1) s1)
                     else s1);
               order2 = order1\<lparr>order_id := trd_order_id rsp\<rparr>
           in
             if trade_type rsp = ACQUIRED_STOCK then
               emit MutexUnlock
                 ((emit (RiskOnOrderTraded order2 rsp) s2)
                    \<lparr>order_map := assign (trd_engine_order_id rsp) order2 (order_map s2)\<rparr>)
             else if trade_type rsp = RELEASED_STOCK then
               emit MutexUnlock
                 ((emit (RiskOnOrderTraded order2 rsp) s2)
                    \<lparr>order_map := assign (trd_engine_order_id rsp) order2 (order_map s2)\<rparr>)
             else if trade_type rsp = CASH_SUBSTITUTION then
               emit MutexUnlock
                 ((emit (RiskOnOrderTraded order2 rsp) s2)
                    \<lparr>order_map := assign (trd_engine_order_id rsp) order2 (order_map s2)\<rparr>)
             else if trade_type rsp = PRIMARY_MARKET then
               (let order3 = order2\<lparr>traded_volume := trd_volume rsp\<rparr>;
                    s3 = emit (Log Info) (emit (RiskOnOrderTraded order3 rsp) s2)
                in emit MutexUnlock
                     (s3\<lparr>order_map := erase (trd_engine_order_id rsp) (order_map s3)\<rparr>))
             else
               emit MutexUnlock
                 (s2\<lparr>order_map := assign (trd_engine_order_id rsp) order2 (order_map s2)\<rparr>)))"

definition on_secondary_market_traded :: "OrderTradedRsp \<Rightarrow> engine \<Rightarrow> engine" where
  "on_secondary_market_traded rsp s =
     (let s1 = emit MutexLock s in
      case find_order (order_map s1) (trd_engine_order_id rsp) of
        None \<Rightarrow> emit MutexUnlock (emit (Log Warn) s1)
      | Some order0 \<Rightarrow>
          (let order1 = (if \<not> accepted order0 then order0\<lparr>accepted := True\<rparr> else order0);
               s2 = (if \<not> accepted order0
                     then emit (Log Info) (emit (RiskOnOrderAccepted order1) s1)
                     else s1);
               order2 = order1\<lparr>order_id := trd_order_id rsp,
                               traded_volume := traded_volume order1 + trd_volume rsp\<rparr>;
               s3 = emit (RiskOnOrderTraded order2 rsp) (emit (Log Info) s2)
           in
             if traded_volume order2 + canceled_volume order2 = volume (req order2) then
               (let s4 = emit (RiskOnOrderCompleted order2) (emit (Log Info) s3)
                in emit MutexUnlock
                     (s4\<lparr>order_map := erase (trd_engine_order_id rsp) (order_map s4)\<rparr>))
             else
               emit MutexUnlock
                 (s3\<lparr>order_map := assign (trd_engine_order_id rsp) order2 (order_map s3)\<rparr>)))"

definition on_order_traded :: "OrderTradedRsp \<Rightarrow> engine \<Rightarrow> engine" where
  "on_order_traded rsp s =
     (if trade_type rsp = SECONDARY_MARKET then on_secondary_market_traded rsp s
      else on_primary_market_traded rsp s)"

definition on_order_canceled :: "OrderCanceledRsp \<Rightarrow> engine \<Rightarrow> engine" where
  "on_order_canceled rsp s =
     (let s1 = emit MutexLock s in
      case find_order (order_map s1) (cxl_engine_order_id rsp) of
        None \<Rightarrow> emit MutexUnlock (emit (Log Warn) s1)
      | Some order0 \<Rightarrow>
          (let order1 = order0\<lparr>canceled_volume := cxl_canceled_volume rsp\<rparr>;
               s2 = emit (RiskOnOrderCanceled order1 (cxl_canceled_volume rsp))
                      (emit (Log Info) s1)
           in
             if traded_volume order1 + canceled_volume order1 = volume (req order1) then
               (let s3 = emit (RiskOnOrderCompleted order1) (emit (Log Info) s2)
                in emit MutexUnlock
                     (s3\<lparr>order_map := erase (cxl_engine_order_id rsp) (order_map s3)\<rparr>))
             else
               emit MutexUnlock
                 (s2\<lparr>order_map := assign (cxl_engine_order_id rsp) order1 (order_map s2)\<rparr>)))"

definition on_order_cancel_rejected :: "OrderCancelRejectedRsp \<Rightarrow> engine \<Rightarrow> engine" where
  "on_order_cancel_rejected rsp s = emit (Log Warn) s"

section \<open>Runs of the engine\<close>

text \<open>
  What reaches the engine from outside: a command record taken from the command channel
  (handled by \<open>execute_cmd\<close>) or one of the gateway's order callbacks. The engine's
  mutex serialises them, so a run is a list of inputs handled one after the other.
\<close>

datatype input =
    Command TraderCommand
  | Accepted OrderAcceptedRsp
  | Rejected OrderRejectedRsp
  | Traded OrderTradedRsp
  | Canceled OrderCanceledRsp
  | CancelRejected OrderCancelRejectedRsp

fun step :: "env \<Rightarrow> engine \<Rightarrow> input \<Rightarrow> engine" where
  "step env s (Command cmd) = execute_cmd env cmd s"
| "step env s (Accepted rsp) = on_order_accepted rsp s"
| "step env s (Rejected rsp) = on_order_rejected env rsp s"
| "step env s (Traded rsp) = on_order_traded rsp s"
| "step env s (Canceled rsp) = on_order_canceled rsp s"
| "step env s (CancelRejected rsp) = on_order_cancel_rejected rsp s"

definition run :: "env \<Rightarrow> engine \<Rightarrow> input list \<Rightarrow> engine" where
  "run env s ins = foldl (step env) s ins"

text \<open>The events that a run from \<open>s\<close> to \<open>s'\<close> added to the trace.\<close>

definition new_events :: "engine \<Rightarrow> engine \<Rightarrow> event list" where
  "new_events s s' = drop (length (trace s)) (trace s')"

section \<open>A concrete setting\<close>

text \<open>
  The setting of the end-to-end scenarios: one contract with ticker index 7, a risk
  check that refuses a zero volume with code 3, a gateway that declines a push whose
  flags are 1, and a new-order command for volume \<open>v\<close>.
\<close>

definition scenario_contract :: Contract where
  "scenario_contract = \<lparr>index = 7, ticker = ''T7''\<rparr>"

definition scenario_env :: env where
  "scenario_env =
     \<lparr>get_by_index = (\<lambda>i. if i = 7 then Some scenario_contract else None),
      check_order_req = (\<lambda>tr order. if volume (req order) = 0 then 3 else 0),
      gateway_send_order = (\<lambda>tr r. flags r \<noteq> 1),
      ERR_SEND_FAILED = 2,
      ERR_REJECTED = 1\<rparr>"

definition scenario_cmd :: "u32 \<Rightarrow> u32 \<Rightarrow> i32 \<Rightarrow> u32 \<Rightarrow> bool \<Rightarrow> TraderCommand" where
  "scenario_cmd ty ti v fl wc =
     \<lparr>magic = 0x1709394,
      cmd_type = ty,
      cmd_strategy_id = ''s1'',
      order_req =
        \<lparr>req_user_order_id = 42, req_ticker_index = ti, req_direction = 1,
         req_offset = 1, req_type = 1, req_volume = v, req_price = 100,
         req_flags = fl, without_check = wc\<rparr>,
      cancel_req = \<lparr>cancel_order_id = 1\<rparr>,
      cancel_ticker_req = \<lparr>cancel_ticker_index = 7\<rparr>\<rparr>"

definition scenario_order :: "i32 \<Rightarrow> Order" where
  "scenario_order v = make_order scenario_contract (scenario_cmd 1 7 v 0 False) 1"

definition scenario_trade :: "TradeType \<Rightarrow> i32 \<Rightarrow> OrderTradedRsp" where
  "scenario_trade tt v =
     \<lparr>trd_engine_order_id = 1, trd_order_id = 555, trade_type = tt,
      trd_volume = v, trd_price = 100\<rparr>"

definition scenario_accept :: OrderAcceptedRsp where
  "scenario_accept = \<lparr>acc_engine_order_id = 1, acc_order_id = 555\<rparr>"

definition scenario_cancel :: "i32 \<Rightarrow> OrderCanceledRsp" where
  "scenario_cancel v = \<lparr>cxl_engine_order_id = 1, cxl_canceled_volume = v\<rparr>"

text \<open>The engine after the order of volume 10 was sent and then accepted by the broker.\<close>

definition scenario_accepted :: engine where
  "scenario_accepted =
     run scenario_env init_engine
       [Command (scenario_cmd 1 7 10 0 False), Accepted scenario_accept]"

text \<open>The engine after the order of volume 10 was sent, before any callback.\<close>

definition scenario_sent :: engine where
  "scenario_sent = run scenario_env init_engine [Command (scenario_cmd 1 7 10 0 False)]"

section \<open>Vocabulary of the properties\<close>

fun is_risk_check :: "event \<Rightarrow> bool" where
  "is_risk_check (RiskCheckOrderReq order) = True"
| "is_risk_check e = False"

text \<open>The orders that \<open>RiskManager::on_order_accepted\<close> and \<open>on_order_completed\<close> were called with.\<close>

fun accepted_hooks :: "event list \<Rightarrow> Order list" where
  "accepted_hooks [] = []"
| "accepted_hooks (RiskOnOrderAccepted order # es) = order # accepted_hooks es"
| "accepted_hooks (e # es) = accepted_hooks es"

fun completed_hooks :: "event list \<Rightarrow> Order list" where
  "completed_hooks [] = []"
| "completed_hooks (RiskOnOrderCompleted order # es) = order # completed_hooks es"
| "completed_hooks (e # es) = completed_hooks es"

definition accepted_for :: "u64 \<Rightarrow> event list \<Rightarrow> Order list" where
  "accepted_for k es = filter (\<lambda>order. engine_order_id (req order) = k) (accepted_hooks es)"

definition completed_for :: "u64 \<Rightarrow> event list \<Rightarrow> Order list" where
  "completed_for k es = filter (\<lambda>order. engine_order_id (req order) = k) (completed_hooks es)"

text \<open>
  Every order of the registry is stored under the \<open>engine_order_id\<close> of its request, as
  \<open>send_order\<close> inserts it.
\<close>

definition registry_keyed :: "registry \<Rightarrow> bool" where
  "registry_keyed m = list_all (\<lambda>(k, order). engine_order_id (req order) = k) m"

text \<open>
  An input that cannot register an order: a gateway callback, or a command that
  \<open>execute_cmd\<close> does not hand to \<open>send_order\<close>.
\<close>

fun registers_nothing :: "input \<Rightarrow> bool" where
  "registers_nothing (Command cmd) =
     (magic cmd \<noteq> TRADER_CMD_MAGIC \<or> cmd_type cmd \<noteq> CMD_NEW_ORDER)"
| "registers_nothing i = True"

text \<open>
  The inputs under which order \<open>k\<close> can only end by being filled or canceled: no
  rejection of \<open>k\<close>, and every trade of \<open>k\<close> is a secondary-market trade.
\<close>

fun fills_and_cancels :: "u64 \<Rightarrow> input \<Rightarrow> bool" where
  "fills_and_cancels k (Command cmd) =
     (magic cmd \<noteq> TRADER_CMD_MAGIC \<or> cmd_type cmd \<noteq> CMD_NEW_ORDER)"
| "fills_and_cancels k (Rejected rsp) = (rej_engine_order_id rsp \<noteq> k)"
| "fills_and_cancels k (Traded rsp) =
     (trd_engine_order_id rsp = k \<longrightarrow> trade_type rsp = SECONDARY_MARKET)"
| "fills_and_cancels k i = True"

text \<open>A trade or cancel callback for order \<open>k\<close>.\<close>

fun touches :: "u64 \<Rightarrow> input \<Rightarrow> bool" where
  "touches k (Traded rsp) = (trd_engine_order_id rsp = k)"
| "touches k (Canceled rsp) = (cxl_engine_order_id rsp = k)"
| "touches k i = False"

text \<open>
  The sum (in 32-bit arithmetic) of \<open>t\<close> and the volumes of the trade callbacks for \<open>k\<close>,
  and the volume of the last cancel callback for \<open>k\<close> (\<open>c\<close> when there is none).
\<close>

fun add_traded :: "u64 \<Rightarrow> i32 \<Rightarrow> input \<Rightarrow> i32" where
  "add_traded k t (Traded rsp) = (if trd_engine_order_id rsp = k then t + trd_volume rsp else t)"
| "add_traded k t i = t"

fun set_canceled :: "u64 \<Rightarrow> i32 \<Rightarrow> input \<Rightarrow> i32" where
  "set_canceled k c (Canceled rsp) =
     (if cxl_engine_order_id rsp = k then cxl_canceled_volume rsp else c)"
| "set_canceled k c i = c"

definition traded_total :: "u64 \<Rightarrow> i32 \<Rightarrow> input list \<Rightarrow> i32" where
  "traded_total k t ins = foldl (add_traded k) t ins"

definition last_canceled :: "u64 \<Rightarrow> i32 \<Rightarrow> input list \<Rightarrow> i32" where
  "last_canceled k c ins = foldl (set_canceled k) c ins"

text \<open>
  The life of one order as far as its end by fills and cancels goes: its request and
  its two volumes while it is registered, \<open>None\<close> once it is not. \<open>view_done\<close> says
  that an input is the trade or cancel callback at which the volumes reach the requested
  volume, \<open>view_step\<close> is the effect of an input, \<open>count_done\<close> counts the inputs of a run
  at which the order ends.
\<close>

type_synonym fill_view = "(OrderReq \<times> i32 \<times> i32) option"

definition order_view :: "engine \<Rightarrow> u64 \<Rightarrow> fill_view" where
  "order_view s k =
     map_option (\<lambda>order. (req order, traded_volume order, canceled_volume order))
       (find_order (order_map s) k)"

fun view_done :: "u64 \<Rightarrow> fill_view \<Rightarrow> input \<Rightarrow> bool" where
  "view_done k None i = False"
| "view_done k (Some (r, t, c)) i =
     (touches k i \<and> add_traded k t i + set_canceled k c i = volume r)"

fun view_step :: "u64 \<Rightarrow> fill_view \<Rightarrow> input \<Rightarrow> fill_view" where
  "view_step k None i = None"
| "view_step k (Some (r, t, c)) i =
     (if view_done k (Some (r, t, c)) i then None
      else Some (r, add_traded k t i, set_canceled k c i))"

fun count_done :: "u64 \<Rightarrow> fill_view \<Rightarrow> input list \<Rightarrow> nat" where
  "count_done k v [] = 0"
| "count_done k v (i # ins) =
     (if view_done k v i then 1 else 0) + count_done k (view_step k v i) ins"

text \<open>
  One input takes the engine from \<open>s\<close> to \<open>s'\<close> as \<open>view_step\<close> says for order \<open>k\<close>: the
  registry stays keyed, the trace is extended, and \<open>on_order_completed\<close> is called for
  \<open>k\<close> once if the order ends at this input and not at all otherwise.
\<close>

definition follows_view :: "u64 \<Rightarrow> engine \<Rightarrow> input \<Rightarrow> engine \<Rightarrow> bool" where
  "follows_view k s i s' \<longleftrightarrow>
     registry_keyed (order_map s') \<and>
     trace s' = trace s @ new_events s s' \<and>
     order_view s' k = view_step k (order_view s k) i \<and>
     length (completed_for k (new_events s s')) = (if view_done k (order_view s k) i then 1 else 0)"

text \<open>
  Order \<open>k\<close> is registered and not yet accepted; and one or more inputs take the engine
  from \<open>s\<close> to \<open>s'\<close> calling \<open>on_order_accepted\<close> for \<open>k\<close> only if \<open>k\<close> was registered and
  not yet accepted, at most once, and then leaving it accepted or erased.
\<close>

definition unaccepted :: "engine \<Rightarrow> u64 \<Rightarrow> bool" where
  "unaccepted s k =
     (case find_order (order_map s) k of None \<Rightarrow> False | Some order \<Rightarrow> \<not> accepted order)"

definition latch_kept :: "u64 \<Rightarrow> engine \<Rightarrow> engine \<Rightarrow> bool" where
  "latch_kept k s s' \<longleftrightarrow>
     registry_keyed (order_map s') \<and>
     trace s' = trace s @ new_events s s' \<and>
     length (accepted_for k (new_events s s')) + (if unaccepted s' k then 1 else 0)
       \<le> (if unaccepted s k then 1 else 0)"

text \<open>
  What holds of every registered order, whatever came before: its status is still
  \<open>SUBMITTING\<close> (no code path of the engine writes \<open>status\<close> after \<open>send_order\<close>), and
  its volumes make up the requested volume only if no trade or cancel has touched it.
\<close>

definition order_ok :: "Order \<Rightarrow> bool" where
  "order_ok order \<longleftrightarrow>
     status order = SUBMITTING \<and>
     (traded_volume order + canceled_volume order = volume (req order) \<longrightarrow>
        traded_volume order = 0 \<and> canceled_volume order = 0)"

text \<open>
  The volume bound of the spec, read over the signed values: both volumes are not
  negative and together do not exceed the requested volume.
\<close>

definition within_volume :: "Order \<Rightarrow> bool" where
  "within_volume order \<longleftrightarrow>
     0 \<le> sint (traded_volume order) \<and>
     0 \<le> sint (canceled_volume order) \<and>
     sint (traded_volume order) + sint (canceled_volume order) \<le> sint (volume (req order))"

definition every_order :: "(Order \<Rightarrow> bool) \<Rightarrow> registry \<Rightarrow> bool" where
  "every_order P m = list_all (\<lambda>p. P (snd p)) m"

text \<open>
  An input that respects the volume bound, which the engine itself never checks: a new
  order asks for a volume that is not negative; a secondary-market trade reports a
  volume that is not negative and fits into what is left of the order; a cancel reports
  a volume that is not negative and fits beside what was traded. \<open>run_within\<close> says so
  of every input of a run, each in the state it arrives in.
\<close>

fun input_within :: "engine \<Rightarrow> input \<Rightarrow> bool" where
  "input_within s (Command cmd) =
     (magic cmd = TRADER_CMD_MAGIC \<and> cmd_type cmd = CMD_NEW_ORDER \<longrightarrow>
        0 \<le> sint (req_volume (order_req cmd)))"
| "input_within s (Traded rsp) =
     (case find_order (order_map s) (trd_engine_order_id rsp) of
        None \<Rightarrow> True
      | Some order \<Rightarrow>
          trade_type rsp = SECONDARY_MARKET \<longrightarrow>
            0 \<le> sint (trd_volume rsp) \<and>
            sint (traded_volume order) + sint (trd_volume rsp) + sint (canceled_volume order)
              \<le> sint (volume (req order)))"
| "input_within s (Canceled rsp) =
     (case find_order (order_map s) (cxl_engine_order_id rsp) of
        None \<Rightarrow> True
      | Some order \<Rightarrow>
          0 \<le> sint (cxl_canceled_volume rsp) \<and>
          sint (traded_volume order) + sint (cxl_canceled_volume rsp)
            \<le> sint (volume (req order)))"
| "input_within s i = True"

fun run_within :: "env \<Rightarrow> engine \<Rightarrow> input list \<Rightarrow> bool" where
  "run_within env s [] = True"
| "run_within env s (i # ins) = (input_within s i \<and> run_within env (step env s i) ins)"

section \<open>The registry operations\<close>

lemma emit_simps:
  "trace (emit e s) = trace s @ [e]"
  "order_map (emit e s) = order_map s"
  "next_id (emit e s) = next_id s"
  by (simp_all add: emit_def)

lemma find_assign:
  "find_order (assign k v m) k' = (if k' = k then Some v else find_order m k')"
  by (simp add: find_order_def assign_def update_conv')

lemma find_erase:
  "find_order (erase k m) k' = (if k' = k then None else find_order m k')"
  by (simp add: find_order_def erase_def delete_conv')

lemma map_of_insort_fresh:
  "map_of m k = None \<Longrightarrow>
   map_of (insort_key fst (k, v) m) k' = (if k' = k then Some v else map_of m k')"
  by (induction m) auto

lemma find_emplace:
  "find_order (emplace k v m) k' =
     (if k' = k \<and> find_order m k = None then Some v else find_order m k')"
  by (auto simp: find_order_def emplace_def map_of_insort_fresh split: option.splits)

lemma set_assign: "set (assign k v m) \<subseteq> insert (k, v) (set m)"
  unfolding assign_def by (induction m) auto

lemma set_erase: "set (erase k m) \<subseteq> set m"
  by (auto simp: erase_def AList.delete_eq)

lemma set_emplace: "set (emplace k v m) \<subseteq> insert (k, v) (set m)"
  by (auto simp: emplace_def set_insort_key split: option.splits)

lemma new_events_append:
  "trace s' = trace s @ evs \<Longrightarrow> new_events s s' = evs"
  by (simp add: new_events_def)

lemma secondary_step:
  assumes "find_order (order_map s) (trd_engine_order_id rsp) = Some order0"
    and "order2 = order0\<lparr>accepted := True, order_id := trd_order_id rsp,
            traded_volume := traded_volume order0 + trd_volume rsp\<rparr>"
  shows "on_secondary_market_traded rsp s =
     s\<lparr>order_map :=
          (if traded_volume order2 + canceled_volume order2 = volume (req order2)
           then erase (trd_engine_order_id rsp) (order_map s)
           else assign (trd_engine_order_id rsp) order2 (order_map s)),
        trace := trace s @ [MutexLock]
          @ (if accepted order0 then [] else [RiskOnOrderAccepted (order0\<lparr>accepted := True\<rparr>), Log Info])
          @ [Log Info, RiskOnOrderTraded order2 rsp]
          @ (if traded_volume order2 + canceled_volume order2 = volume (req order2)
             then [Log Info, RiskOnOrderCompleted order2] else [])
          @ [MutexUnlock]\<rparr>"
  using assms
  by (cases order0; cases "accepted order0")
     (simp_all add: on_secondary_market_traded_def emit_def Let_def)

lemma canceled_step:
  assumes "find_order (order_map s) (cxl_engine_order_id rsp) = Some order0"
    and "order1 = order0\<lparr>canceled_volume := cxl_canceled_volume rsp\<rparr>"
  shows "on_order_canceled rsp s =
     s\<lparr>order_map :=
          (if traded_volume order1 + canceled_volume order1 = volume (req order1)
           then erase (cxl_engine_order_id rsp) (order_map s)
           else assign (cxl_engine_order_id rsp) order1 (order_map s)),
        trace := trace s @ [MutexLock, Log Info,
                            RiskOnOrderCanceled order1 (cxl_canceled_volume rsp)]
          @ (if traded_volume order1 + canceled_volume order1 = volume (req order1)
             then [Log Info, RiskOnOrderCompleted order1] else [])
          @ [MutexUnlock]\<rparr>"
  using assms
  by (simp add: on_order_canceled_def emit_def Let_def)

lemma primary_step:
  assumes "find_order (order_map s) (trd_engine_order_id rsp) = Some order0"
    and "order2 = order0\<lparr>accepted := True, order_id := trd_order_id rsp\<rparr>"
  shows "on_primary_market_traded rsp s =
     s\<lparr>order_map :=
          (if trade_type rsp = PRIMARY_MARKET
           then erase (trd_engine_order_id rsp) (order_map s)
           else assign (trd_engine_order_id rsp) order2 (order_map s)),
        trace := trace s @ [MutexLock]
          @ (if accepted order0 then [] else [RiskOnOrderAccepted (order0\<lparr>accepted := True\<rparr>), Log Info])
          @ (if trade_type rsp \<in> {ACQUIRED_STOCK, RELEASED_STOCK, CASH_SUBSTITUTION}
             then [RiskOnOrderTraded order2 rsp]
             else if trade_type rsp = PRIMARY_MARKET
             then [RiskOnOrderTraded (order2\<lparr>traded_volume := trd_volume rsp\<rparr>) rsp, Log Info]
             else [])
          @ [MutexUnlock]\<rparr>"
  using assms
  by (cases order0; cases "accepted order0"; cases "trade_type rsp")
     (simp_all add: on_primary_market_traded_def emit_def Let_def)

lemma accepted_step:
  assumes "find_order (order_map s) (acc_engine_order_id rsp) = Some order0"
    and "order1 = order0\<lparr>order_id := acc_order_id rsp, accepted := True\<rparr>"
  shows "on_order_accepted rsp s =
     (if accepted order0 then s\<lparr>trace := trace s @ [MutexLock, MutexUnlock]\<rparr>
      else s\<lparr>order_map := assign (acc_engine_order_id rsp) order1 (order_map s),
             trace := trace s @ [MutexLock, RiskOnOrderAccepted order1, Log Info, MutexUnlock]\<rparr>)"
  using assms
  by (simp add: on_order_accepted_def emit_def Let_def)

lemma rejected_step:
  assumes "find_order (order_map s) (rej_engine_order_id rsp) = Some order0"
  shows "on_order_rejected env rsp s =
     s\<lparr>order_map := erase (rej_engine_order_id rsp) (order_map s),
       trace := trace s @ [MutexLock, RiskOnOrderRejected order0 (ERR_REJECTED env), Log Error, MutexUnlock]\<rparr>"
  using assms
  by (simp add: on_order_rejected_def emit_def Let_def)

lemma cancel_for_ticker_eq:
  "cancel_for_ticker ti s =
     s\<lparr>trace := trace s @ [MutexLock] @
        map (\<lambda>p. GatewayCancelOrder (order_id (snd p)))
          (filter (\<lambda>p. ti = index (contract (req (snd p)))) (order_map s)) @ [MutexUnlock]\<rparr>"
proof -
  have "fold (\<lambda>(k, order) s'.
                if ti = index (contract (req order))
                then emit (GatewayCancelOrder (order_id order)) s' else s') m s0 =
        s0\<lparr>trace := trace s0 @
          map (\<lambda>p. GatewayCancelOrder (order_id (snd p)))
            (filter (\<lambda>p. ti = index (contract (req (snd p)))) m)\<rparr>" for m :: registry and s0
    by (induction m arbitrary: s0) (auto simp: emit_def)
  then show ?thesis by (simp add: cancel_for_ticker_def emit_def)
qed

lemma cancel_all_eq:
  "cancel_all s =
     s\<lparr>trace := trace s @ [MutexLock] @
        map (\<lambda>p. GatewayCancelOrder (order_id (snd p))) (order_map s) @ [MutexUnlock]\<rparr>"
proof -
  have "fold (\<lambda>(k, order) s'. emit (GatewayCancelOrder (order_id order)) s') m s0 =
        s0\<lparr>trace := trace s0 @ map (\<lambda>p. GatewayCancelOrder (order_id (snd p))) m\<rparr>"
    for m :: registry and s0
    by (induction m arbitrary: s0) (auto simp: emit_def)
  then show ?thesis by (simp add: cancel_all_def emit_def)
qed

lemma accepted_hooks_append [simp]:
  "accepted_hooks (xs @ ys) = accepted_hooks xs @ accepted_hooks ys"
  by (induction xs rule: accepted_hooks.induct) simp_all

lemma completed_hooks_append [simp]:
  "completed_hooks (xs @ ys) = completed_hooks xs @ completed_hooks ys"
  by (induction xs rule: completed_hooks.induct) simp_all

lemma hooks_cancel_events [simp]:
  "accepted_hooks (map (\<lambda>p. GatewayCancelOrder (f p)) m) = []"
  "completed_hooks (map (\<lambda>p. GatewayCancelOrder (f p)) m) = []"
  by (induction m) simp_all

lemma accepted_for_append [simp]:
  "accepted_for k (xs @ ys) = accepted_for k xs @ accepted_for k ys"
  by (simp add: accepted_for_def)

lemma completed_for_append [simp]:
  "completed_for k (xs @ ys) = completed_for k xs @ completed_for k ys"
  by (simp add: completed_for_def)

lemma command_registers_nothing:
  assumes "magic cmd \<noteq> TRADER_CMD_MAGIC \<or> cmd_type cmd \<noteq> CMD_NEW_ORDER"
  shows "order_map (execute_cmd env cmd s) = order_map s"
    and "trace (execute_cmd env cmd s) = trace s @ new_events s (execute_cmd env cmd s)"
    and "accepted_hooks (new_events s (execute_cmd env cmd s)) = []"
    and "completed_hooks (new_events s (execute_cmd env cmd s)) = []"
  using assms
  by (auto simp: execute_cmd_def cancel_order_def cancel_for_ticker_eq cancel_all_eq emit_def
      new_events_def)

lemma unknown_id_dropped:
  assumes "find_order (order_map s) k = None"
  shows "(acc_engine_order_id a = k \<longrightarrow>
            on_order_accepted a s = s\<lparr>trace := trace s @ [MutexLock, Log Warn, MutexUnlock]\<rparr>) \<and>
         (rej_engine_order_id r = k \<longrightarrow>
            on_order_rejected env r s = s\<lparr>trace := trace s @ [MutexLock, Log Warn, MutexUnlock]\<rparr>) \<and>
         (trd_engine_order_id t = k \<longrightarrow>
            on_order_traded t s = s\<lparr>trace := trace s @ [MutexLock, Log Warn, MutexUnlock]\<rparr>) \<and>
         (cxl_engine_order_id c = k \<longrightarrow>
            on_order_canceled c s = s\<lparr>trace := trace s @ [MutexLock, Log Warn, MutexUnlock]\<rparr>)"
  using assms
  by (simp add: on_order_accepted_def on_order_rejected_def on_order_traded_def
      on_secondary_market_traded_def on_primary_market_traded_def on_order_canceled_def
      emit_def Let_def)

section \<open>One order seen through a run\<close>

lemma keyed_find:
  "registry_keyed m \<Longrightarrow> find_order m k = Some order \<Longrightarrow> engine_order_id (req order) = k"
  by (auto simp: registry_keyed_def find_order_def list_all_iff dest: map_of_SomeD)

lemma keyed_assign:
  "registry_keyed m \<Longrightarrow> engine_order_id (req v) = k \<Longrightarrow> registry_keyed (assign k v m)"
  using set_assign [of k v m] by (auto simp: registry_keyed_def list_all_iff)

lemma keyed_erase: "registry_keyed m \<Longrightarrow> registry_keyed (erase k m)"
  using set_erase [of k m] by (auto simp: registry_keyed_def list_all_iff)

lemma keyed_emplace:
  "registry_keyed m \<Longrightarrow> engine_order_id (req v) = k \<Longrightarrow> registry_keyed (emplace k v m)"
  using set_emplace [of k v m] by (auto simp: registry_keyed_def list_all_iff)

lemma view_absent [simp]: "find_order (order_map s) k = None \<Longrightarrow> order_view s k = None"
  by (simp add: order_view_def)

lemma view_step_untouched:
  "\<not> touches k i \<Longrightarrow> view_step k v i = v"
  "\<not> touches k i \<Longrightarrow> \<not> view_done k v i"
  by (cases v; cases i; auto)+

lemma follows_untouched:
  assumes "s' = s\<lparr>order_map := M, trace := trace s @ evs\<rparr>"
    and "registry_keyed M"
    and "order_view (s\<lparr>order_map := M\<rparr>) k = order_view s k"
    and "completed_for k evs = []"
    and "\<not> touches k i \<or> find_order (order_map s) k = None"
  shows "follows_view k s i s'"
proof -
  have v: "order_view s' k = order_view s k"
    using assms(1,3) by (simp add: order_view_def)
  have "view_step k (order_view s k) i = order_view s k \<and> \<not> view_done k (order_view s k) i"
    using assms(5) view_step_untouched [of k i "order_view s k"]
    by (auto simp: order_view_def)
  then show ?thesis
    using assms(1,2,4) v by (simp add: follows_view_def new_events_def)
qed

lemma follows_touched:
  assumes "s' = s\<lparr>order_map := M, trace := trace s @ evs\<rparr>"
    and "registry_keyed M"
    and "find_order (order_map s) k = Some order0"
    and "touches k i"
    and "t = add_traded k (traded_volume order0) i"
    and "c = set_canceled k (canceled_volume order0) i"
    and "t + c = volume (req order0) \<Longrightarrow>
           find_order M k = None \<and> length (completed_for k evs) = 1"
    and "t + c \<noteq> volume (req order0) \<Longrightarrow>
           (\<exists>order1. find_order M k = Some order1 \<and> req order1 = req order0 \<and>
              traded_volume order1 = t \<and> canceled_volume order1 = c) \<and>
           completed_for k evs = []"
  shows "follows_view k s i s'"
proof (cases "t + c = volume (req order0)")
  case True
  then show ?thesis
    using assms(1-6) assms(7) [OF True]
    by (simp add: follows_view_def order_view_def new_events_def)
next
  case False
  then show ?thesis
    using assms(1-6) assms(8) [OF False]
    by (auto simp add: follows_view_def order_view_def new_events_def)
qed

lemma follows_command:
  assumes "registry_keyed (order_map s)"
    and "magic cmd \<noteq> TRADER_CMD_MAGIC \<or> cmd_type cmd \<noteq> CMD_NEW_ORDER"
  shows "follows_view k s (Command cmd) (execute_cmd env cmd s)"
proof -
  note c = command_registers_nothing [OF assms(2), where env=env and s=s]
  have v: "order_view (execute_cmd env cmd s) k = order_view s k"
    using c(1) by (simp add: order_view_def)
  have "view_step k (order_view s k) (Command cmd) = order_view s k"
    and "\<not> view_done k (order_view s k) (Command cmd)"
    by (simp_all add: view_step_untouched)
  then show ?thesis
    using assms(1) c v by (simp add: follows_view_def completed_for_def)
qed

lemma follows_dropped:
  assumes "registry_keyed (order_map s)"
    and "s' = s\<lparr>trace := trace s @ [MutexLock, Log Warn, MutexUnlock]\<rparr>"
    and "\<not> touches k i \<or> find_order (order_map s) k = None"
  shows "follows_view k s i s'"
  by (rule follows_untouched [where M="order_map s" and evs="[MutexLock, Log Warn, MutexUnlock]"])
     (use assms in \<open>simp_all add: completed_for_def order_view_def\<close>)

lemma follows_accepted:
  assumes "registry_keyed (order_map s)"
  shows "follows_view k s (Accepted rsp) (on_order_accepted rsp s)"
proof (cases "find_order (order_map s) (acc_engine_order_id rsp)")
  case None
  show ?thesis
    by (rule follows_dropped [OF assms])
       (use None unknown_id_dropped [OF None, where a=rsp] in simp_all)
next
  case (Some order0)
  note st = accepted_step [OF Some refl]
  have id: "engine_order_id (req order0) = acc_engine_order_id rsp"
    by (rule keyed_find [OF assms Some])
  show ?thesis
  proof (cases "accepted order0")
    case True
    show ?thesis
      by (rule follows_untouched [where M="order_map s" and evs="[MutexLock, MutexUnlock]"])
         (use assms True st in \<open>simp_all add: completed_for_def order_view_def\<close>)
  next
    case False
    show ?thesis
      by (rule follows_untouched
            [where M="assign (acc_engine_order_id rsp)
                        (order0\<lparr>order_id := acc_order_id rsp, accepted := True\<rparr>) (order_map s)"
               and evs="[MutexLock,
                         RiskOnOrderAccepted (order0\<lparr>order_id := acc_order_id rsp, accepted := True\<rparr>),
                         Log Info, MutexUnlock]"])
         (use assms False st id Some in
           \<open>simp_all add: completed_for_def keyed_assign find_assign order_view_def\<close>)
  qed
qed

lemma follows_rejected:
  assumes "registry_keyed (order_map s)" and "rej_engine_order_id rsp \<noteq> k"
  shows "follows_view k s (Rejected rsp) (on_order_rejected env rsp s)"
proof (cases "find_order (order_map s) (rej_engine_order_id rsp)")
  case None
  show ?thesis
    by (rule follows_dropped [OF assms(1)])
       (use None unknown_id_dropped [OF None, where r=rsp and env=env] in simp_all)
next
  case (Some order0)
  show ?thesis
    by (rule follows_untouched
          [where M="erase (rej_engine_order_id rsp) (order_map s)"
             and evs="[MutexLock, RiskOnOrderRejected order0 (ERR_REJECTED env), Log Error,
                       MutexUnlock]"])
       (use assms rejected_step [OF Some, of env] in
         \<open>simp_all add: completed_for_def keyed_erase find_erase order_view_def\<close>)
qed

lemma follows_canceled:
  assumes "registry_keyed (order_map s)"
  shows "follows_view k s (Canceled rsp) (on_order_canceled rsp s)"
proof (cases "find_order (order_map s) (cxl_engine_order_id rsp)")
  case None
  show ?thesis
    by (rule follows_dropped [OF assms])
       (use None unknown_id_dropped [OF None, where c=rsp] in auto)
next
  case (Some order0)
  define order1 where "order1 = order0\<lparr>canceled_volume := cxl_canceled_volume rsp\<rparr>"
  define fin where "fin \<longleftrightarrow> traded_volume order1 + canceled_volume order1 = volume (req order1)"
  define M where "M = (if fin then erase (cxl_engine_order_id rsp) (order_map s)
                       else assign (cxl_engine_order_id rsp) order1 (order_map s))"
  define evs where "evs = [MutexLock, Log Info,
                           RiskOnOrderCanceled order1 (cxl_canceled_volume rsp)]
          @ (if fin then [Log Info, RiskOnOrderCompleted order1] else [])
          @ [MutexUnlock]"
  have st: "on_order_canceled rsp s = s\<lparr>order_map := M, trace := trace s @ evs\<rparr>"
    unfolding M_def evs_def fin_def by (rule canceled_step [OF Some order1_def])
  have id: "engine_order_id (req order1) = cxl_engine_order_id rsp"
    using keyed_find [OF assms Some] by (simp add: order1_def)
  have kM: "registry_keyed M"
    using assms id by (simp add: M_def keyed_assign keyed_erase)
  show ?thesis
  proof (cases "cxl_engine_order_id rsp = k")
    case True
    show ?thesis
    proof (rule follows_touched [OF st kM _ _ refl refl])
      show "find_order (order_map s) k = Some order0" using Some True by simp
      show "touches k (Canceled rsp)" using True by simp
    next
      assume "add_traded k (traded_volume order0) (Canceled rsp) +
              set_canceled k (canceled_volume order0) (Canceled rsp) = volume (req order0)"
      then have fin using True by (simp add: fin_def order1_def)
      then show "find_order M k = None \<and> length (completed_for k evs) = 1"
        using True id by (simp add: M_def evs_def find_erase completed_for_def)
    next
      assume "add_traded k (traded_volume order0) (Canceled rsp) +
              set_canceled k (canceled_volume order0) (Canceled rsp) \<noteq> volume (req order0)"
      then have "\<not> fin" using True by (simp add: fin_def order1_def)
      then show "(\<exists>order1. find_order M k = Some order1 \<and> req order1 = req order0 \<and>
              traded_volume order1 = add_traded k (traded_volume order0) (Canceled rsp) \<and>
              canceled_volume order1 = set_canceled k (canceled_volume order0) (Canceled rsp)) \<and>
           completed_for k evs = []"
        using True by (simp add: M_def evs_def find_assign completed_for_def order1_def)
    qed
  next
    case False
    show ?thesis
    proof (rule follows_untouched [OF st kM])
      show "order_view (s\<lparr>order_map := M\<rparr>) k = order_view s k"
        using False by (simp add: order_view_def M_def find_assign find_erase)
      show "completed_for k evs = []"
        using False id by (auto simp: evs_def completed_for_def)
      show "\<not> touches k (Canceled rsp) \<or> find_order (order_map s) k = None"
        using False by simp
    qed
  qed
qed

lemma follows_secondary:
  assumes "registry_keyed (order_map s)" and "trade_type rsp = SECONDARY_MARKET"
  shows "follows_view k s (Traded rsp) (on_order_traded rsp s)"
proof (cases "find_order (order_map s) (trd_engine_order_id rsp)")
  case None
  show ?thesis
    by (rule follows_dropped [OF assms(1)])
       (use None unknown_id_dropped [OF None, where t=rsp] in auto)
next
  case (Some order0)
  define order2 where "order2 = order0\<lparr>accepted := True, order_id := trd_order_id rsp,
            traded_volume := traded_volume order0 + trd_volume rsp\<rparr>"
  define fin where "fin \<longleftrightarrow> traded_volume order2 + canceled_volume order2 = volume (req order2)"
  define M where "M = (if fin then erase (trd_engine_order_id rsp) (order_map s)
                       else assign (trd_engine_order_id rsp) order2 (order_map s))"
  define evs where "evs = [MutexLock]
          @ (if accepted order0 then []
             else [RiskOnOrderAccepted (order0\<lparr>accepted := True\<rparr>), Log Info])
          @ [Log Info, RiskOnOrderTraded order2 rsp]
          @ (if fin then [Log Info, RiskOnOrderCompleted order2] else [])
          @ [MutexUnlock]"
  have st: "on_order_traded rsp s = s\<lparr>order_map := M, trace := trace s @ evs\<rparr>"
    unfolding M_def evs_def fin_def on_order_traded_def using assms(2)
    by (simp add: secondary_step [OF Some order2_def])
  have id: "engine_order_id (req order2) = trd_engine_order_id rsp"
    using keyed_find [OF assms(1) Some] by (simp add: order2_def)
  have kM: "registry_keyed M"
    using assms(1) id by (simp add: M_def keyed_assign keyed_erase)
  show ?thesis
  proof (cases "trd_engine_order_id rsp = k")
    case True
    show ?thesis
    proof (rule follows_touched [OF st kM _ _ refl refl])
      show "find_order (order_map s) k = Some order0" using Some True by simp
      show "touches k (Traded rsp)" using True by simp
    next
      assume "add_traded k (traded_volume order0) (Traded rsp) +
              set_canceled k (canceled_volume order0) (Traded rsp) = volume (req order0)"
      then have fin using True by (simp add: fin_def order2_def)
      then show "find_order M k = None \<and> length (completed_for k evs) = 1"
        using True id by (simp add: M_def evs_def find_erase completed_for_def)
    next
      assume "add_traded k (traded_volume order0) (Traded rsp) +
              set_canceled k (canceled_volume order0) (Traded rsp) \<noteq> volume (req order0)"
      then have "\<not> fin" using True by (simp add: fin_def order2_def)
      then show "(\<exists>order1. find_order M k = Some order1 \<and> req order1 = req order0 \<and>
              traded_volume order1 = add_traded k (traded_volume order0) (Traded rsp) \<and>
              canceled_volume order1 = set_canceled k (canceled_volume order0) (Traded rsp)) \<and>
           completed_for k evs = []"
        using True by (simp add: M_def evs_def find_assign completed_for_def order2_def)
    qed
  next
    case False
    show ?thesis
    proof (rule follows_untouched [OF st kM])
      show "order_view (s\<lparr>order_map := M\<rparr>) k = order_view s k"
        using False by (simp add: order_view_def M_def find_assign find_erase)
      show "completed_for k evs = []"
        using False id by (auto simp: evs_def completed_for_def)
      show "\<not> touches k (Traded rsp) \<or> find_order (order_map s) k = None"
        using False by simp
    qed
  qed
qed

lemma follows_primary:
  assumes "registry_keyed (order_map s)" and "trade_type rsp \<noteq> SECONDARY_MARKET"
    and "trd_engine_order_id rsp \<noteq> k"
  shows "follows_view k s (Traded rsp) (on_order_traded rsp s)"
proof (cases "find_order (order_map s) (trd_engine_order_id rsp)")
  case None
  show ?thesis
    by (rule follows_dropped [OF assms(1)])
       (use None unknown_id_dropped [OF None, where t=rsp] in auto)
next
  case (Some order0)
  define order2 where "order2 = order0\<lparr>accepted := True, order_id := trd_order_id rsp\<rparr>"
  define M where "M = (if trade_type rsp = PRIMARY_MARKET
           then erase (trd_engine_order_id rsp) (order_map s)
           else assign (trd_engine_order_id rsp) order2 (order_map s))"
  define evs where "evs = [MutexLock]
          @ (if accepted order0 then []
             else [RiskOnOrderAccepted (order0\<lparr>accepted := True\<rparr>), Log Info])
          @ (if trade_type rsp \<in> {ACQUIRED_STOCK, RELEASED_STOCK, CASH_SUBSTITUTION}
             then [RiskOnOrderTraded order2 rsp]
             else if trade_type rsp = PRIMARY_MARKET
             then [RiskOnOrderTraded (order2\<lparr>traded_volume := trd_volume rsp\<rparr>) rsp, Log Info]
             else [])
          @ [MutexUnlock]"
  have st: "on_order_traded rsp s = s\<lparr>order_map := M, trace := trace s @ evs\<rparr>"
    unfolding M_def evs_def on_order_traded_def using assms(2)
    by (simp add: primary_step [OF Some order2_def])
  have id: "engine_order_id (req order2) = trd_engine_order_id rsp"
    using keyed_find [OF assms(1) Some] by (simp add: order2_def)
  have kM: "registry_keyed M"
    using assms(1) id by (simp add: M_def keyed_assign keyed_erase)
  show ?thesis
  proof (rule follows_untouched [OF st kM])
    show "order_view (s\<lparr>order_map := M\<rparr>) k = order_view s k"
      using assms(3) by (simp add: order_view_def M_def find_assign find_erase)
    show "completed_for k evs = []"
      by (simp add: evs_def completed_for_def)
    show "\<not> touches k (Traded rsp) \<or> find_order (order_map s) k = None"
      using assms(3) by simp
  qed
qed

lemma follows_step:
  assumes "registry_keyed (order_map s)" and "fills_and_cancels k i"
  shows "follows_view k s i (step env s i)"
proof (cases i)
  case (Command cmd)
  then show ?thesis using assms by (simp add: follows_command)
next
  case (Accepted rsp)
  then show ?thesis using assms by (simp add: follows_accepted)
next
  case (Rejected rsp)
  then show ?thesis using assms by (simp add: follows_rejected)
next
  case (Traded rsp)
  show ?thesis
  proof (cases "trade_type rsp = SECONDARY_MARKET")
    case True
    then show ?thesis using assms Traded by (simp add: follows_secondary)
  next
    case False
    then show ?thesis using assms Traded by (simp add: follows_primary)
  qed
next
  case (Canceled rsp)
  then show ?thesis using assms by (simp add: follows_canceled)
next
  case (CancelRejected rsp)
  have "step env s i = s\<lparr>order_map := order_map s, trace := trace s @ [Log Warn]\<rparr>"
    using CancelRejected by (simp add: on_order_cancel_rejected_def emit_def)
  then show ?thesis
    by (rule follows_untouched)
       (use assms CancelRejected in \<open>simp_all add: completed_for_def order_view_def\<close>)
qed

lemma new_events_trans:
  "trace s1 = trace s @ new_events s s1 \<Longrightarrow> trace s2 = trace s1 @ new_events s1 s2 \<Longrightarrow>
   new_events s s2 = new_events s s1 @ new_events s1 s2"
  by (metis append.assoc new_events_append)

lemma run_Cons [simp]: "run env s (i # ins) = run env (step env s i) ins"
  by (simp add: run_def)

lemma run_Nil [simp]: "run env s [] = s"
  by (simp add: run_def)

lemma run_follows:
  assumes "registry_keyed (order_map s)" and "list_all (fills_and_cancels k) ins"
  shows "registry_keyed (order_map (run env s ins)) \<and>
         trace (run env s ins) = trace s @ new_events s (run env s ins) \<and>
         order_view (run env s ins) k = foldl (view_step k) (order_view s k) ins \<and>
         length (completed_for k (new_events s (run env s ins))) =
           count_done k (order_view s k) ins"
  using assms
proof (induction ins arbitrary: s)
  case Nil
  then show ?case by (simp add: new_events_def completed_for_def)
next
  case (Cons i ins)
  let ?s1 = "step env s i"
  have f: "follows_view k s i ?s1"
    using Cons.prems by (simp add: follows_step)
  then have k1: "registry_keyed (order_map ?s1)"
    and t1: "trace ?s1 = trace s @ new_events s ?s1"
    by (simp_all add: follows_view_def)
  have ih: "registry_keyed (order_map (run env ?s1 ins)) \<and>
         trace (run env ?s1 ins) = trace ?s1 @ new_events ?s1 (run env ?s1 ins) \<and>
         order_view (run env ?s1 ins) k = foldl (view_step k) (order_view ?s1 k) ins \<and>
         length (completed_for k (new_events ?s1 (run env ?s1 ins))) =
           count_done k (order_view ?s1 k) ins"
    by (rule Cons.IH [OF k1]) (use Cons.prems in simp)
  have ne: "new_events s (run env ?s1 ins) =
              new_events s ?s1 @ new_events ?s1 (run env ?s1 ins)"
    by (rule new_events_trans [OF t1]) (use ih in blast)
  have tr: "trace (run env ?s1 ins) = trace s @ new_events s (run env ?s1 ins)"
    using t1 ih ne by simp
  have v1: "order_view ?s1 k = view_step k (order_view s k) i"
    and c1: "length (completed_for k (new_events s ?s1)) =
               (if view_done k (order_view s k) i then 1 else 0)"
    using f by (simp_all add: follows_view_def)
  have "registry_keyed (order_map (run env s (i # ins)))"
    using ih by simp
  moreover have "trace (run env s (i # ins)) = trace s @ new_events s (run env s (i # ins))"
    using tr by simp
  moreover have "order_view (run env s (i # ins)) k = foldl (view_step k) (order_view s k) (i # ins)"
    using ih v1 by simp
  moreover have "length (completed_for k (new_events s (run env s (i # ins)))) =
           count_done k (order_view s k) (i # ins)"
    using ih c1 v1 by (simp add: ne)
  ultimately show ?case by blast
qed

lemma view_run_None:
  "foldl (view_step k) None ins = None" "count_done k None ins = 0"
  by (induction ins) simp_all

lemma totals_untouched:
  "\<not> list_ex (touches k) ins \<Longrightarrow> traded_total k t ins = t \<and> last_canceled k c ins = c"
proof (induction ins)
  case Nil
  then show ?case by (simp add: traded_total_def last_canceled_def)
next
  case (Cons i ins)
  then show ?case by (cases i) (auto simp: traded_total_def last_canceled_def)
qed

lemma view_run_Some:
  "(foldl (view_step k) (Some (r, t, c)) ins = None \<and> count_done k (Some (r, t, c)) ins = 1) \<or>
   (foldl (view_step k) (Some (r, t, c)) ins =
      Some (r, traded_total k t ins, last_canceled k c ins) \<and>
    count_done k (Some (r, t, c)) ins = 0 \<and>
    (list_ex (touches k) ins \<longrightarrow> traded_total k t ins + last_canceled k c ins \<noteq> volume r))"
proof (induction ins arbitrary: t c)
  case Nil
  show ?case by (simp add: traded_total_def last_canceled_def)
next
  case (Cons i ins)
  let ?t = "add_traded k t i" and ?c = "set_canceled k c i"
  have tot: "traded_total k t (i # ins) = traded_total k ?t ins"
    "last_canceled k c (i # ins) = last_canceled k ?c ins"
    by (simp_all add: traded_total_def last_canceled_def)
  show ?case
  proof (cases "view_done k (Some (r, t, c)) i")
    case True
    then show ?thesis by (simp add: view_run_None)
  next
    case False
    note ih = Cons.IH [of ?t ?c]
    show ?thesis
    proof (cases "list_ex (touches k) ins")
      case True
      then show ?thesis using False ih tot by auto
    next
      case nt: False
      have "touches k i \<longrightarrow> ?t + ?c \<noteq> volume r" using False by simp
      then show ?thesis
        using False ih tot nt totals_untouched [OF nt, of ?t ?c] by auto
    qed
  qed
qed

lemma order_view_eq_None: "order_view s k = None \<longleftrightarrow> find_order (order_map s) k = None"
  by (simp add: order_view_def)

lemma completes_once:
  assumes "registry_keyed (order_map s)" and "find_order (order_map s) k = Some order0"
    and "list_all (fills_and_cancels k) ins"
  shows "length (completed_for k (new_events s (run env s ins))) \<le> 1"
    and "list_ex (touches k) ins \<Longrightarrow>
         traded_total k (traded_volume order0) ins +
           last_canceled k (canceled_volume order0) ins = volume (req order0) \<Longrightarrow>
         find_order (order_map (run env s ins)) k = None \<and>
         length (completed_for k (new_events s (run env s ins))) = 1"
proof -
  have v: "order_view s k = Some (req order0, traded_volume order0, canceled_volume order0)"
    using assms(2) by (simp add: order_view_def)
  have r: "order_view (run env s ins) k = foldl (view_step k) (order_view s k) ins"
    "length (completed_for k (new_events s (run env s ins))) = count_done k (order_view s k) ins"
    using run_follows [OF assms(1,3), of env] by simp_all
  note a = view_run_Some [of k "req order0" "traded_volume order0" "canceled_volume order0" ins]
  show "length (completed_for k (new_events s (run env s ins))) \<le> 1"
    using r a v by auto
  show "find_order (order_map (run env s ins)) k = None \<and>
         length (completed_for k (new_events s (run env s ins))) = 1"
    if "list_ex (touches k) ins"
      and "traded_total k (traded_volume order0) ins +
           last_canceled k (canceled_volume order0) ins = volume (req order0)"
    using r a v that by (auto simp: order_view_eq_None [symmetric])
qed

section \<open>The acceptance latch through a run\<close>

lemma latch_kept_refl: "registry_keyed (order_map s) \<Longrightarrow> latch_kept k s s"
  by (simp add: latch_kept_def new_events_def accepted_for_def)

lemma latch_kept_trans:
  assumes "latch_kept k s s1" and "latch_kept k s1 s2"
  shows "latch_kept k s s2"
proof -
  have t1: "trace s1 = trace s @ new_events s s1"
    and t2: "trace s2 = trace s1 @ new_events s1 s2"
    using assms by (simp_all add: latch_kept_def)
  have ne: "new_events s s2 = new_events s s1 @ new_events s1 s2"
    by (rule new_events_trans [OF t1 t2])
  have tr: "trace s2 = trace s @ new_events s s2"
    using t1 t2 ne by simp
  have c1: "length (accepted_for k (new_events s s1)) + (if unaccepted s1 k then 1 else 0)
       \<le> (if unaccepted s k then 1 else 0)"
    and c2: "length (accepted_for k (new_events s1 s2)) + (if unaccepted s2 k then 1 else 0)
       \<le> (if unaccepted s1 k then 1 else 0)"
    and k2: "registry_keyed (order_map s2)"
    using assms by (simp_all add: latch_kept_def)
  have "length (accepted_for k (new_events s s2)) + (if unaccepted s2 k then 1 else 0)
       \<le> (if unaccepted s k then 1 else 0)"
    using c1 c2 by (simp add: ne split: if_splits)
  then show ?thesis
    using k2 tr by (simp add: latch_kept_def)
qed

lemma latch_unchanged:
  assumes "s' = s\<lparr>trace := trace s @ evs\<rparr>" and "registry_keyed (order_map s)"
    and "accepted_hooks evs = []"
  shows "latch_kept k s s'"
  using assms by (simp add: latch_kept_def new_events_def accepted_for_def unaccepted_def)

lemma latch_update:
  assumes st: "s' = s\<lparr>order_map := M, trace := trace s @ evs\<rparr>"
    and keyed: "registry_keyed (order_map s)"
    and found: "find_order (order_map s) j = Some order0"
    and M: "M = erase j (order_map s) \<or>
            (M = assign j order_new (order_map s) \<and> req order_new = req order0 \<and>
             (accepted order0 \<longrightarrow> accepted order_new) \<and>
             (accepted_hooks evs \<noteq> [] \<longrightarrow> accepted order_new))"
    and hooks: "accepted_hooks evs = [] \<or>
            (\<not> accepted order0 \<and> (\<exists>h. accepted_hooks evs = [h] \<and> req h = req order0))"
  shows "latch_kept k s s'"
proof -
  have id: "engine_order_id (req order0) = j"
    by (rule keyed_find [OF keyed found])
  have kM: "registry_keyed M"
    using M keyed id by (auto simp: keyed_erase keyed_assign)
  have tr: "trace s' = trace s @ new_events s s'" and ne: "new_events s s' = evs"
    and om: "order_map s' = M"
    using st by (simp_all add: new_events_def)
  have cnt: "length (accepted_for k evs) + (if unaccepted s' k then 1 else 0)
       \<le> (if unaccepted s k then 1 else 0)"
  proof (cases "j = k")
    case False
    have "accepted_for k evs = []"
      using hooks id False by (auto simp: accepted_for_def)
    moreover have "unaccepted s' k = unaccepted s k"
      using M False by (auto simp: unaccepted_def om find_erase find_assign)
    ultimately show ?thesis by simp
  next
    case True
    have u: "unaccepted s k = (\<not> accepted order0)"
      using found True by (simp add: unaccepted_def)
    show ?thesis
    proof (cases "accepted_hooks evs = []")
      case e: True
      then have "accepted_for k evs = []" by (simp add: accepted_for_def)
      moreover have "unaccepted s' k \<longrightarrow> \<not> accepted order0"
        using M True by (auto simp: unaccepted_def om find_erase find_assign)
      ultimately show ?thesis using u by simp
    next
      case ne: False
      then have na: "\<not> accepted order0" and "length (accepted_for k evs) \<le> 1"
        using hooks by (auto simp: accepted_for_def)
      moreover have "\<not> unaccepted s' k"
        using M True ne by (auto simp: unaccepted_def om find_erase find_assign)
      ultimately show ?thesis using u by simp
    qed
  qed
  show ?thesis
    using kM tr cnt by (simp add: latch_kept_def om ne)
qed

lemma latch_dropped:
  assumes "registry_keyed (order_map s)"
    and "s' = s\<lparr>trace := trace s @ [MutexLock, Log Warn, MutexUnlock]\<rparr>"
  shows "latch_kept k s s'"
  by (rule latch_unchanged [OF assms(2,1)]) simp

lemma latch_accepted:
  assumes "registry_keyed (order_map s)"
  shows "latch_kept k s (on_order_accepted rsp s)"
proof (cases "find_order (order_map s) (acc_engine_order_id rsp)")
  case None
  show ?thesis
    by (rule latch_dropped [OF assms])
       (use unknown_id_dropped [OF None, where a=rsp] in simp)
next
  case (Some order0)
  note st = accepted_step [OF Some refl]
  show ?thesis
  proof (cases "accepted order0")
    case True
    show ?thesis
      by (rule latch_unchanged [where evs="[MutexLock, MutexUnlock]"])
         (use assms True st in simp_all)
  next
    case False
    have st': "on_order_accepted rsp s =
      s\<lparr>order_map := assign (acc_engine_order_id rsp)
                (order0\<lparr>order_id := acc_order_id rsp, accepted := True\<rparr>) (order_map s),
        trace := trace s @
          [MutexLock,
           RiskOnOrderAccepted (order0\<lparr>order_id := acc_order_id rsp, accepted := True\<rparr>),
           Log Info, MutexUnlock]\<rparr>"
      using st False by simp
    show ?thesis
      by (rule latch_update [OF st' assms Some,
            where order_new="order0\<lparr>order_id := acc_order_id rsp, accepted := True\<rparr>"])
         (use False in simp_all)
  qed
qed

lemma latch_rejected:
  assumes "registry_keyed (order_map s)"
  shows "latch_kept k s (on_order_rejected env rsp s)"
proof (cases "find_order (order_map s) (rej_engine_order_id rsp)")
  case None
  show ?thesis
    by (rule latch_dropped [OF assms])
       (use unknown_id_dropped [OF None, where r=rsp and env=env] in simp)
next
  case (Some order0)
  show ?thesis
    by (rule latch_update [OF rejected_step [OF Some, of env] assms Some, where order_new=order0])
       simp_all
qed

lemma latch_canceled:
  assumes "registry_keyed (order_map s)"
  shows "latch_kept k s (on_order_canceled rsp s)"
proof (cases "find_order (order_map s) (cxl_engine_order_id rsp)")
  case None
  show ?thesis
    by (rule latch_dropped [OF assms])
       (use unknown_id_dropped [OF None, where c=rsp] in simp)
next
  case (Some order0)
  define order1 where "order1 = order0\<lparr>canceled_volume := cxl_canceled_volume rsp\<rparr>"
  note st = canceled_step [OF Some order1_def]
  show ?thesis
    by (rule latch_update [OF st assms Some, where order_new=order1])
       (simp_all add: order1_def)
qed

lemma latch_traded:
  assumes "registry_keyed (order_map s)"
  shows "latch_kept k s (on_order_traded rsp s)"
proof (cases "find_order (order_map s) (trd_engine_order_id rsp)")
  case None
  show ?thesis
    by (rule latch_dropped [OF assms])
       (use unknown_id_dropped [OF None, where t=rsp] in simp)
next
  case (Some order0)
  show ?thesis
  proof (cases "trade_type rsp = SECONDARY_MARKET")
    case True
    define order2 where "order2 = order0\<lparr>accepted := True, order_id := trd_order_id rsp,
            traded_volume := traded_volume order0 + trd_volume rsp\<rparr>"
    have st: "on_order_traded rsp s = on_secondary_market_traded rsp s"
      using True by (simp add: on_order_traded_def)
    show ?thesis
      unfolding st
      by (rule latch_update [OF secondary_step [OF Some order2_def] assms Some,
            where order_new=order2])
         (simp_all add: order2_def)
  next
    case False
    define order2 where "order2 = order0\<lparr>accepted := True, order_id := trd_order_id rsp\<rparr>"
    have st: "on_order_traded rsp s = on_primary_market_traded rsp s"
      using False by (simp add: on_order_traded_def)
    show ?thesis
      unfolding st
      by (rule latch_update [OF primary_step [OF Some order2_def] assms Some,
            where order_new=order2])
         (simp_all add: order2_def)
  qed
qed

lemma latch_step:
  assumes "registry_keyed (order_map s)" and "registers_nothing i"
  shows "latch_kept k s (step env s i)"
proof (cases i)
  case (Command cmd)
  note c = command_registers_nothing [where cmd=cmd and env=env and s=s]
  have h: "magic cmd \<noteq> TRADER_CMD_MAGIC \<or> cmd_type cmd \<noteq> CMD_NEW_ORDER"
    using assms(2) Command by simp
  have "latch_kept k s (execute_cmd env cmd s)"
    unfolding latch_kept_def unaccepted_def accepted_for_def
    using c(1) [OF h] c(2) [OF h] c(3) [OF h] assms(1) by simp
  then show ?thesis using Command by simp
next
  case (Accepted rsp)
  then show ?thesis using assms by (simp add: latch_accepted)
next
  case (Rejected rsp)
  then show ?thesis using assms by (simp add: latch_rejected)
next
  case (Traded rsp)
  then show ?thesis using assms by (simp add: latch_traded)
next
  case (Canceled rsp)
  then show ?thesis using assms by (simp add: latch_canceled)
next
  case (CancelRejected rsp)
  have "step env s i = s\<lparr>trace := trace s @ [Log Warn]\<rparr>"
    using CancelRejected by (simp add: on_order_cancel_rejected_def emit_def)
  then show ?thesis
    by (rule latch_unchanged) (use assms in simp_all)
qed

lemma latch_run:
  assumes "registry_keyed (order_map s)" and "list_all registers_nothing ins"
  shows "latch_kept k s (run env s ins)"
  using assms
proof (induction ins arbitrary: s)
  case Nil
  then show ?case by (simp add: latch_kept_refl)
next
  case (Cons i ins)
  have l1: "latch_kept k s (step env s i)"
    using Cons.prems by (simp add: latch_step)
  then have "registry_keyed (order_map (step env s i))"
    by (simp add: latch_kept_def)
  then have "latch_kept k (step env s i) (run env (step env s i) ins)"
    using Cons.IH Cons.prems by simp
  then show ?case
    using l1 latch_kept_trans by simp
qed

section \<open>What every run preserves\<close>

lemma every_assign:
  "every_order P m \<Longrightarrow> P v \<Longrightarrow> every_order P (assign k v m)"
  using set_assign [of k v m] by (auto simp: every_order_def list_all_iff)

lemma every_erase: "every_order P m \<Longrightarrow> every_order P (erase k m)"
  using set_erase [of k m] by (auto simp: every_order_def list_all_iff)

lemma every_emplace:
  "every_order P m \<Longrightarrow> P v \<Longrightarrow> every_order P (emplace k v m)"
  using set_emplace [of k v m] by (auto simp: every_order_def list_all_iff)

lemma every_find:
  "every_order P m \<Longrightarrow> find_order m k = Some order \<Longrightarrow> P order"
  using map_of_SomeD [of m k order]
  by (force simp: every_order_def find_order_def list_all_iff)

lemma send_order_registry:
  "order_map (snd (send_order env cmd s)) = order_map s \<or>
   (\<exists>c. order_map (snd (send_order env cmd s)) =
          emplace (next_id s) (make_order c cmd (next_id s)) (order_map s))"
  by (auto simp: send_order_def send_order_push_def emit_def Let_def make_order_def
      split: option.splits)

lemma execute_cmd_registry:
  "order_map (execute_cmd env cmd s) = order_map s \<or>
   (magic cmd = TRADER_CMD_MAGIC \<and> cmd_type cmd = CMD_NEW_ORDER \<and>
    (\<exists>c. order_map (execute_cmd env cmd s) =
           emplace (next_id s) (make_order c cmd (next_id s)) (order_map s)))"
proof (cases "magic cmd = TRADER_CMD_MAGIC \<and> cmd_type cmd = CMD_NEW_ORDER")
  case True
  then have "execute_cmd env cmd s = snd (send_order env cmd (emit (Log Debug) s))"
    by (simp add: execute_cmd_def)
  then show ?thesis
    using True send_order_registry [of env cmd "emit (Log Debug) s"]
    by (simp add: emit_def)
next
  case False
  then show ?thesis
    using command_registers_nothing(1) [of cmd env s] by blast
qed

lemma step_preserves:
  assumes inv: "every_order P (order_map s)"
    and new: "\<And>cmd c. i = Command cmd \<Longrightarrow> magic cmd = TRADER_CMD_MAGIC \<Longrightarrow>
                cmd_type cmd = CMD_NEW_ORDER \<Longrightarrow> P (make_order c cmd (next_id s))"
    and latch: "\<And>order x. P order \<Longrightarrow> P (order\<lparr>order_id := x, accepted := True\<rparr>)"
    and fill: "\<And>rsp order. i = Traded rsp \<Longrightarrow> trade_type rsp = SECONDARY_MARKET \<Longrightarrow>
                find_order (order_map s) (trd_engine_order_id rsp) = Some order \<Longrightarrow>
                P order \<Longrightarrow>
                traded_volume order + trd_volume rsp + canceled_volume order \<noteq> volume (req order) \<Longrightarrow>
                P (order\<lparr>accepted := True, order_id := trd_order_id rsp,
                          traded_volume := traded_volume order + trd_volume rsp\<rparr>)"
    and cancel: "\<And>rsp order. i = Canceled rsp \<Longrightarrow>
                find_order (order_map s) (cxl_engine_order_id rsp) = Some order \<Longrightarrow>
                P order \<Longrightarrow>
                traded_volume order + cxl_canceled_volume rsp \<noteq> volume (req order) \<Longrightarrow>
                P (order\<lparr>canceled_volume := cxl_canceled_volume rsp\<rparr>)"
  shows "every_order P (order_map (step env s i))"
proof (cases i)
  case (Command cmd)
  then show ?thesis
    using execute_cmd_registry [of env cmd s] inv new [OF Command]
    by (auto simp: every_emplace)
next
  case (Accepted rsp)
  show ?thesis
  proof (cases "find_order (order_map s) (acc_engine_order_id rsp)")
    case None
    then show ?thesis
      using inv Accepted unknown_id_dropped [OF None, where a=rsp] by simp
  next
    case (Some order0)
    have "P order0" by (rule every_find [OF inv Some])
    then show ?thesis
      using inv Accepted latch [of order0 "acc_order_id rsp"]
      by (simp add: accepted_step [OF Some refl] every_assign)
  qed
next
  case (Rejected rsp)
  show ?thesis
  proof (cases "find_order (order_map s) (rej_engine_order_id rsp)")
    case None
    then show ?thesis
      using inv Rejected unknown_id_dropped [OF None, where r=rsp and env=env] by simp
  next
    case (Some order0)
    then show ?thesis
      using inv Rejected by (simp add: rejected_step [OF Some] every_erase)
  qed
next
  case (Traded rsp)
  show ?thesis
  proof (cases "find_order (order_map s) (trd_engine_order_id rsp)")
    case None
    then show ?thesis
      using inv Traded unknown_id_dropped [OF None, where t=rsp] by simp
  next
    case (Some order0)
    have p0: "P order0" by (rule every_find [OF inv Some])
    have sw: "order0\<lparr>accepted := True, order_id := trd_order_id rsp\<rparr> =
              order0\<lparr>order_id := trd_order_id rsp, accepted := True\<rparr>"
      by (cases order0) simp
    show ?thesis
    proof (cases "trade_type rsp = SECONDARY_MARKET")
      case True
      then show ?thesis
        using inv Traded fill [OF Traded True Some p0]
        by (simp add: on_order_traded_def secondary_step [OF Some refl] every_assign every_erase)
    next
      case False
      then show ?thesis
        using inv Traded latch [OF p0, of "trd_order_id rsp"]
        by (simp add: on_order_traded_def primary_step [OF Some refl] every_assign every_erase sw)
    qed
  qed
next
  case (Canceled rsp)
  show ?thesis
  proof (cases "find_order (order_map s) (cxl_engine_order_id rsp)")
    case None
    then show ?thesis
      using inv Canceled unknown_id_dropped [OF None, where c=rsp] by simp
  next
    case (Some order0)
    have "P order0" by (rule every_find [OF inv Some])
    then show ?thesis
      using inv Canceled cancel [OF Canceled Some]
      by (simp add: canceled_step [OF Some refl] every_assign every_erase)
  qed
next
  case (CancelRejected rsp)
  then show ?thesis
    using inv by (simp add: on_order_cancel_rejected_def emit_def)
qed

lemma step_order_ok:
  assumes "every_order order_ok (order_map s)"
  shows "every_order order_ok (order_map (step env s i))"
  by (rule step_preserves [OF assms]) (simp_all add: order_ok_def make_order_def)

lemma run_order_ok:
  "every_order order_ok (order_map s) \<Longrightarrow> every_order order_ok (order_map (run env s ins))"
  by (induction ins arbitrary: s) (simp_all add: step_order_ok)

lemma sint_add_within:
  fixes a b v :: i32
  assumes "0 \<le> sint a" and "0 \<le> sint b" and "sint a + sint b \<le> sint v"
  shows "sint (a + b) = sint a + sint b"
proof -
  have "sint v < 2 ^ 31"
    using sint_lt [of v] by simp
  then have "sint a + sint b < 2 ^ 31" and "- (2 ^ 31) \<le> sint a + sint b"
    using assms by simp_all
  then show ?thesis
    by (simp add: sint_word_ariths signed_take_bit_int_eq_self)
qed

lemma step_within_volume:
  assumes "every_order within_volume (order_map s)" and "input_within s i"
  shows "every_order within_volume (order_map (step env s i))"
proof (rule step_preserves [OF assms(1)])
  fix cmd c
  assume "i = Command cmd" "magic cmd = TRADER_CMD_MAGIC" "cmd_type cmd = CMD_NEW_ORDER"
  then show "within_volume (make_order c cmd (next_id s))"
    using assms(2) by (simp add: within_volume_def make_order_def)
next
  fix order :: Order and x
  assume "within_volume order"
  then show "within_volume (order\<lparr>order_id := x, accepted := True\<rparr>)"
    by (simp add: within_volume_def)
next
  fix rsp order
  assume h: "i = Traded rsp" "trade_type rsp = SECONDARY_MARKET"
    "find_order (order_map s) (trd_engine_order_id rsp) = Some order"
    "within_volume order"
  have b: "0 \<le> sint (trd_volume rsp)"
    "sint (traded_volume order) + sint (trd_volume rsp) + sint (canceled_volume order)
       \<le> sint (volume (req order))"
    using assms(2) h by simp_all
  have w: "0 \<le> sint (traded_volume order)" "0 \<le> sint (canceled_volume order)"
    using h(4) by (simp_all add: within_volume_def)
  have "sint (traded_volume order + trd_volume rsp) =
          sint (traded_volume order) + sint (trd_volume rsp)"
    by (rule sint_add_within [where v="volume (req order)"]) (use b w in simp_all)
  then show "within_volume (order\<lparr>accepted := True, order_id := trd_order_id rsp,
                          traded_volume := traded_volume order + trd_volume rsp\<rparr>)"
    using b w by (simp add: within_volume_def)
next
  fix rsp order
  assume h: "i = Canceled rsp"
    "find_order (order_map s) (cxl_engine_order_id rsp) = Some order"
    "within_volume order"
  then show "within_volume (order\<lparr>canceled_volume := cxl_canceled_volume rsp\<rparr>)"
    using assms(2) by (simp add: within_volume_def)
qed

lemma run_within_volume:
  "every_order within_volume (order_map s) \<Longrightarrow> run_within env s ins \<Longrightarrow>
   every_order within_volume (order_map (run env s ins))"
  by (induction ins arbitrary: s) (simp_all add: step_within_volume)

text \<open>Every state that a run reaches from the empty engine has its registry keyed.\<close>

lemma step_keyed:
  assumes "registry_keyed (order_map s)"
  shows "registry_keyed (order_map (step env s i))"
proof (cases "registers_nothing i")
  case True
  then show ?thesis
    using latch_step [OF assms True, of 0 env] by (simp add: latch_kept_def)
next
  case False
  then obtain cmd where i: "i = Command cmd"
    by (cases i) simp_all
  have "engine_order_id (req (make_order c cmd (next_id s))) = next_id s" for c
    by (simp add: make_order_def)
  then show ?thesis
    using assms i execute_cmd_registry [of env cmd s] by (auto simp: keyed_emplace)
qed

lemma run_keyed:
  "registry_keyed (order_map s) \<Longrightarrow> registry_keyed (order_map (run env s ins))"
  by (induction ins arbitrary: s) (simp_all add: step_keyed)

lemma reachable_keyed: "registry_keyed (order_map (run env init_engine ins))"
  by (rule run_keyed) (simp add: registry_keyed_def init_engine_def)

section \<open>The concrete setting, evaluated\<close>

lemma scenario_sent_eval:
  "scenario_sent =
     \<lparr>order_map = [(1, scenario_order 10)],
      next_id = 2,
      trace = [Log Debug, MutexLock, RiskCheckOrderReq (scenario_order 10),
               GatewaySendOrder (req (scenario_order 10)), RiskOnOrderSent (scenario_order 10),
               Log Debug, MutexUnlock]\<rparr>"
  by (simp add: scenario_sent_def run_def execute_cmd_def send_order_def send_order_push_def
      emit_def Let_def scenario_env_def scenario_cmd_def scenario_order_def
      init_engine_def make_order_def scenario_contract_def
      TRADER_CMD_MAGIC_def CMD_NEW_ORDER_def NO_ERROR_def find_order_def emplace_def)

lemma scenario_accepted_eval:
  "scenario_accepted =
     \<lparr>order_map = [(1, scenario_order 10\<lparr>order_id := 555, accepted := True\<rparr>)],
      next_id = 2,
      trace = [Log Debug, MutexLock, RiskCheckOrderReq (scenario_order 10),
               GatewaySendOrder (req (scenario_order 10)), RiskOnOrderSent (scenario_order 10),
               Log Debug, MutexUnlock, MutexLock,
               RiskOnOrderAccepted (scenario_order 10\<lparr>order_id := 555, accepted := True\<rparr>),
               Log Info, MutexUnlock]\<rparr>"
  by (simp add: scenario_accepted_def run_def execute_cmd_def send_order_def send_order_push_def
      on_order_accepted_def emit_def Let_def scenario_env_def scenario_cmd_def scenario_order_def
      scenario_accept_def init_engine_def make_order_def scenario_contract_def
      TRADER_CMD_MAGIC_def CMD_NEW_ORDER_def NO_ERROR_def find_order_def emplace_def assign_def)

section \<open>Commands\<close>

text \<open>
  C7. A command record whose \<open>magic\<close> is not \<open>0x1709394\<close>, or whose \<open>type\<close> is none of
  the four command types, only makes \<open>execute_cmd\<close> log one error: the order registry
  and the id counter are unchanged and no gateway call or risk hook is made.
\<close>

theorem execute_cmd_malformed_dropped:
  "magic cmd \<noteq> 0x1709394 \<or>
     cmd_type cmd \<notin> {CMD_NEW_ORDER, CMD_CANCEL_ORDER, CMD_CANCEL_TICKER, CMD_CANCEL_ALL} \<Longrightarrow>
   execute_cmd env cmd s = s\<lparr>trace := trace s @ [Log Error]\<rparr>"
  by (auto simp: execute_cmd_def emit_def TRADER_CMD_MAGIC_def)

theorem execute_cmd_malformed_dropped_witness:
  "magic (scenario_cmd 1 7 10 0 False\<lparr>magic := 0x1709395\<rparr>) \<noteq> 0x1709394 \<and>
   execute_cmd scenario_env (scenario_cmd 1 7 10 0 False\<lparr>magic := 0x1709395\<rparr>) scenario_accepted =
     scenario_accepted\<lparr>trace := trace scenario_accepted @ [Log Error]\<rparr> \<and>
   cmd_type (scenario_cmd 5 7 10 0 False) \<notin>
     {CMD_NEW_ORDER, CMD_CANCEL_ORDER, CMD_CANCEL_TICKER, CMD_CANCEL_ALL} \<and>
   execute_cmd scenario_env (scenario_cmd 5 7 10 0 False) scenario_accepted =
     scenario_accepted\<lparr>trace := trace scenario_accepted @ [Log Error]\<rparr>"
  using execute_cmd_malformed_dropped
          [of "scenario_cmd 1 7 10 0 False\<lparr>magic := 0x1709395\<rparr>" scenario_env scenario_accepted]
        execute_cmd_malformed_dropped
          [of "scenario_cmd 5 7 10 0 False" scenario_env scenario_accepted]
  by (simp add: scenario_cmd_def CMD_NEW_ORDER_def CMD_CANCEL_ORDER_def
      CMD_CANCEL_TICKER_def CMD_CANCEL_ALL_def)

text \<open>
  C10. A new-order command whose \<open>ticker_index\<close> has no entry in the contract table makes
  \<open>send_order\<close> return \<open>false\<close> after one error log: the mutex is not taken, no risk
  hook and no gateway call is made, and the registry and the id counter are unchanged.
\<close>

theorem send_order_contract_not_found:
  "get_by_index env (req_ticker_index (order_req cmd)) = None \<Longrightarrow>
   send_order env cmd s = (False, s\<lparr>trace := trace s @ [Log Error]\<rparr>)"
  by (simp add: send_order_def emit_def)

theorem send_order_contract_not_found_witness:
  "get_by_index scenario_env (req_ticker_index (order_req (scenario_cmd 1 8 10 0 False))) = None \<and>
   send_order scenario_env (scenario_cmd 1 8 10 0 False) scenario_accepted =
     (False, scenario_accepted\<lparr>trace := trace scenario_accepted @ [Log Error]\<rparr>)"
  using send_order_contract_not_found [of scenario_env "scenario_cmd 1 8 10 0 False" scenario_accepted]
  by (simp add: scenario_env_def scenario_cmd_def)

text \<open>
  C5. For a new-order command whose contract is found: when the risk check runs and
  returns a code other than \<open>NO_ERROR\<close>, \<open>send_order\<close> returns \<open>false\<close>, calls
  \<open>on_order_rejected\<close> with that code, never calls the gateway and leaves the registry
  as it is; when the push is attempted and the gateway returns \<open>false\<close>, \<open>send_order\<close>
  returns \<open>false\<close>, calls \<open>on_order_rejected\<close> with \<open>ERR_SEND_FAILED\<close> and leaves the
  registry as it is. (Only the id counter and the trace change.)
\<close>

theorem send_order_rejection_paths:
  assumes "get_by_index env (req_ticker_index (order_req cmd)) = Some c"
    and "order = make_order c cmd (next_id s)"
    and "pre = (if without_check (order_req cmd) then [MutexLock]
                else [MutexLock, RiskCheckOrderReq order])"
  shows "(\<not> without_check (order_req cmd) \<and>
          check_order_req env (trace s @ [MutexLock]) order \<noteq> NO_ERROR \<longrightarrow>
            send_order env cmd s =
              (False,
               s\<lparr>next_id := next_id s + 1,
                 trace := trace s @
                   [MutexLock, RiskCheckOrderReq order, Log Error,
                    RiskOnOrderRejected order (check_order_req env (trace s @ [MutexLock]) order),
                    MutexUnlock]\<rparr>)) \<and>
         ((without_check (order_req cmd) \<or>
           check_order_req env (trace s @ [MutexLock]) order = NO_ERROR) \<and>
          \<not> gateway_send_order env (trace s @ pre) (req order) \<longrightarrow>
            send_order env cmd s =
              (False,
               s\<lparr>next_id := next_id s + 1,
                 trace := trace s @ pre @
                   [GatewaySendOrder (req order), Log Error,
                    RiskOnOrderRejected order (ERR_SEND_FAILED env), MutexUnlock]\<rparr>))"
  using assms
  by (auto simp add: send_order_def send_order_push_def emit_def Let_def)

theorem send_order_rejection_paths_witness:
  "get_by_index scenario_env (req_ticker_index (order_req (scenario_cmd 1 7 0 0 False))) =
     Some scenario_contract \<and>
   \<not> without_check (order_req (scenario_cmd 1 7 0 0 False)) \<and>
   check_order_req scenario_env (trace init_engine @ [MutexLock]) (scenario_order 0) = 3 \<and>
   (3 :: i32) \<noteq> NO_ERROR \<and>
   send_order scenario_env (scenario_cmd 1 7 0 0 False) init_engine =
     (False,
      init_engine\<lparr>next_id := 2,
        trace := [MutexLock, RiskCheckOrderReq (scenario_order 0), Log Error,
                  RiskOnOrderRejected (scenario_order 0) 3, MutexUnlock]\<rparr>) \<and>
   check_order_req scenario_env (trace init_engine @ [MutexLock])
     (make_order scenario_contract (scenario_cmd 1 7 10 1 False) 1) = NO_ERROR \<and>
   \<not> gateway_send_order scenario_env
       (trace init_engine @
          [MutexLock, RiskCheckOrderReq (make_order scenario_contract (scenario_cmd 1 7 10 1 False) 1)])
       (req (make_order scenario_contract (scenario_cmd 1 7 10 1 False) 1)) \<and>
   send_order scenario_env (scenario_cmd 1 7 10 1 False) init_engine =
     (False,
      init_engine\<lparr>next_id := 2,
        trace := [MutexLock,
                  RiskCheckOrderReq (make_order scenario_contract (scenario_cmd 1 7 10 1 False) 1),
                  GatewaySendOrder (req (make_order scenario_contract (scenario_cmd 1 7 10 1 False) 1)),
                  Log Error,
                  RiskOnOrderRejected (make_order scenario_contract (scenario_cmd 1 7 10 1 False) 1) 2,
                  MutexUnlock]\<rparr>)"
  using send_order_rejection_paths
          [of scenario_env "scenario_cmd 1 7 0 0 False" scenario_contract "scenario_order 0"
              init_engine "[MutexLock, RiskCheckOrderReq (scenario_order 0)]"]
        send_order_rejection_paths
          [of scenario_env "scenario_cmd 1 7 10 1 False" scenario_contract
              "make_order scenario_contract (scenario_cmd 1 7 10 1 False) 1"
              init_engine
              "[MutexLock, RiskCheckOrderReq (make_order scenario_contract (scenario_cmd 1 7 10 1 False) 1)]"]
  by (simp add: scenario_env_def scenario_cmd_def scenario_order_def make_order_def
      init_engine_def NO_ERROR_def)

text \<open>
  C9, as the code has it. For a new-order command whose \<open>ticker_index\<close> is in the
  contract table, \<open>check_order_req\<close> is called if and only if \<open>without_check\<close> is unset;
  with \<open>without_check\<close> set the first thing after taking the mutex is the push to the
  gateway, and a \<open>false\<close> from the gateway is reported as \<open>ERR_SEND_FAILED\<close>.
\<close>

theorem risk_check_iff_not_bypassed:
  assumes "get_by_index env (req_ticker_index (order_req cmd)) = Some c"
    and "order = make_order c cmd (next_id s)"
  shows "(list_ex is_risk_check (new_events s (snd (send_order env cmd s))) \<longleftrightarrow>
            \<not> without_check (order_req cmd)) \<and>
         (without_check (order_req cmd) \<longrightarrow>
            take 2 (new_events s (snd (send_order env cmd s))) =
              [MutexLock, GatewaySendOrder (req order)]) \<and>
         (without_check (order_req cmd) \<and>
          \<not> gateway_send_order env (trace s @ [MutexLock]) (req order) \<longrightarrow>
            send_order env cmd s =
              (False,
               s\<lparr>next_id := next_id s + 1,
                 trace := trace s @
                   [MutexLock, GatewaySendOrder (req order), Log Error,
                    RiskOnOrderRejected order (ERR_SEND_FAILED env), MutexUnlock]\<rparr>))"
  using assms
  by (auto simp add: send_order_def send_order_push_def emit_def Let_def new_events_def)

theorem risk_check_iff_not_bypassed_witness:
  "get_by_index scenario_env (req_ticker_index (order_req (scenario_cmd 1 7 0 1 True))) =
     Some scenario_contract \<and>
   without_check (order_req (scenario_cmd 1 7 0 1 True)) \<and>
   \<not> list_ex is_risk_check
       (new_events init_engine (snd (send_order scenario_env (scenario_cmd 1 7 0 1 True) init_engine))) \<and>
   send_order scenario_env (scenario_cmd 1 7 0 1 True) init_engine =
     (False,
      init_engine\<lparr>next_id := 2,
        trace := [MutexLock,
                  GatewaySendOrder (req (make_order scenario_contract (scenario_cmd 1 7 0 1 True) 1)),
                  Log Error,
                  RiskOnOrderRejected (make_order scenario_contract (scenario_cmd 1 7 0 1 True) 1) 2,
                  MutexUnlock]\<rparr>)"
  using risk_check_iff_not_bypassed
          [of scenario_env "scenario_cmd 1 7 0 1 True" scenario_contract
              "make_order scenario_contract (scenario_cmd 1 7 0 1 True) 1" init_engine]
  by (simp add: scenario_env_def scenario_cmd_def make_order_def init_engine_def
      new_events_def)

text \<open>
  C9 as the specification states it, for every new-order command, fails: a command
  with \<open>without_check\<close> unset whose ticker index is not in the contract table is dropped
  before the risk check.
\<close>

theorem risk_check_unknown_ticker_counterexample:
  "\<not> without_check (order_req (scenario_cmd 1 8 10 0 False)) \<and>
   magic (scenario_cmd 1 8 10 0 False) = TRADER_CMD_MAGIC \<and>
   cmd_type (scenario_cmd 1 8 10 0 False) = CMD_NEW_ORDER \<and>
   new_events init_engine (execute_cmd scenario_env (scenario_cmd 1 8 10 0 False) init_engine) =
     [Log Debug, Log Error] \<and>
   \<not> list_ex is_risk_check
       (new_events init_engine (execute_cmd scenario_env (scenario_cmd 1 8 10 0 False) init_engine))"
  by (simp add: execute_cmd_def send_order_def emit_def new_events_def scenario_env_def
      scenario_cmd_def init_engine_def TRADER_CMD_MAGIC_def CMD_NEW_ORDER_def)

text \<open>
  C3, as the code has it. \<open>cancel_order\<close> hands the id it is given straight to the
  gateway's \<open>cancel_order\<close> and never looks at the registry; through \<open>execute_cmd\<close> that
  id is the \<open>order_id\<close> field of the cancel command. (The comment above
  \<open>on_order_accepted\<close> says that the strategy is told the broker's order id and cancels
  with it.)
\<close>

theorem cancel_order_forwards_command_id:
  "cancel_order oid s = s\<lparr>trace := trace s @ [GatewayCancelOrder oid]\<rparr> \<and>
   (magic cmd = TRADER_CMD_MAGIC \<and> cmd_type cmd = CMD_CANCEL_ORDER \<longrightarrow>
      execute_cmd env cmd s =
        s\<lparr>trace := trace s @ [Log Debug, GatewayCancelOrder (cancel_order_id (cancel_req cmd))]\<rparr>)"
  by (simp add: cancel_order_def execute_cmd_def emit_def CMD_NEW_ORDER_def CMD_CANCEL_ORDER_def)

theorem cancel_order_forwards_command_id_witness:
  "magic (scenario_cmd 2 7 10 0 False) = TRADER_CMD_MAGIC \<and>
   cmd_type (scenario_cmd 2 7 10 0 False) = CMD_CANCEL_ORDER \<and>
   cancel_order_id (cancel_req (scenario_cmd 2 7 10 0 False)) = 1 \<and>
   execute_cmd scenario_env (scenario_cmd 2 7 10 0 False) scenario_accepted =
     scenario_accepted\<lparr>trace := trace scenario_accepted @ [Log Debug, GatewayCancelOrder 1]\<rparr>"
  using cancel_order_forwards_command_id
          [of 1 scenario_accepted "scenario_cmd 2 7 10 0 False" scenario_env]
  by (simp add: scenario_cmd_def TRADER_CMD_MAGIC_def CMD_CANCEL_ORDER_def)

text \<open>
  C3 as the specification states it fails: with order 1 registered under the broker's
  id 555, a cancel for id 1 reaches the gateway as a cancel of 1, not of 555.
\<close>

theorem cancel_order_broker_id_counterexample:
  "find_order (order_map scenario_accepted) 1 =
     Some (scenario_order 10\<lparr>order_id := 555, accepted := True\<rparr>) \<and>
   order_id (scenario_order 10\<lparr>order_id := 555, accepted := True\<rparr>) = 555 \<and>
   new_events scenario_accepted (cancel_order 1 scenario_accepted) = [GatewayCancelOrder 1] \<and>
   new_events scenario_accepted (cancel_order 1 scenario_accepted) \<noteq> [GatewayCancelOrder 555]"
  by (simp add: scenario_accepted_eval find_order_def cancel_order_def emit_def new_events_def)

section \<open>Gateway callbacks\<close>

text \<open>
  C8. A gateway callback (\<open>on_order_accepted\<close>, \<open>on_order_rejected\<close>,
  \<open>on_order_traded\<close>, \<open>on_order_canceled\<close>) whose \<open>engine_order_id\<close> is not a key of
  the registry takes the mutex, logs one warning and returns: the registry with all its
  orders is unchanged and no risk hook is invoked.
\<close>

theorem unknown_callback_dropped:
  assumes "find_order (order_map s) k = None"
  shows "(acc_engine_order_id a = k \<longrightarrow>
            on_order_accepted a s = s\<lparr>trace := trace s @ [MutexLock, Log Warn, MutexUnlock]\<rparr>) \<and>
         (rej_engine_order_id r = k \<longrightarrow>
            on_order_rejected env r s = s\<lparr>trace := trace s @ [MutexLock, Log Warn, MutexUnlock]\<rparr>) \<and>
         (trd_engine_order_id t = k \<longrightarrow>
            on_order_traded t s = s\<lparr>trace := trace s @ [MutexLock, Log Warn, MutexUnlock]\<rparr>) \<and>
         (cxl_engine_order_id c = k \<longrightarrow>
            on_order_canceled c s = s\<lparr>trace := trace s @ [MutexLock, Log Warn, MutexUnlock]\<rparr>)"
  using assms
  by (simp add: on_order_accepted_def on_order_rejected_def on_order_traded_def
      on_secondary_market_traded_def on_primary_market_traded_def on_order_canceled_def
      emit_def Let_def)

theorem unknown_callback_dropped_witness:
  "find_order (order_map scenario_accepted) 999 = None \<and>
   on_order_accepted \<lparr>acc_engine_order_id = 999, acc_order_id = 5\<rparr> scenario_accepted =
     scenario_accepted\<lparr>trace := trace scenario_accepted @ [MutexLock, Log Warn, MutexUnlock]\<rparr> \<and>
   on_order_rejected scenario_env \<lparr>rej_engine_order_id = 999, rej_reason = ''no''\<rparr> scenario_accepted =
     scenario_accepted\<lparr>trace := trace scenario_accepted @ [MutexLock, Log Warn, MutexUnlock]\<rparr> \<and>
   on_order_traded (scenario_trade SECONDARY_MARKET 4\<lparr>trd_engine_order_id := 999\<rparr>) scenario_accepted =
     scenario_accepted\<lparr>trace := trace scenario_accepted @ [MutexLock, Log Warn, MutexUnlock]\<rparr> \<and>
   on_order_canceled \<lparr>cxl_engine_order_id = 999, cxl_canceled_volume = 7\<rparr> scenario_accepted =
     scenario_accepted\<lparr>trace := trace scenario_accepted @ [MutexLock, Log Warn, MutexUnlock]\<rparr>"
  using unknown_callback_dropped
          [of scenario_accepted 999 "\<lparr>acc_engine_order_id = 999, acc_order_id = 5\<rparr>"
              "\<lparr>rej_engine_order_id = 999, rej_reason = ''no''\<rparr>" scenario_env
              "scenario_trade SECONDARY_MARKET 4\<lparr>trd_engine_order_id := 999\<rparr>"
              "\<lparr>cxl_engine_order_id = 999, cxl_canceled_volume = 7\<rparr>"]
  by (simp add: scenario_accepted_eval find_order_def scenario_trade_def)

text \<open>
  C6. For a trade callback on a registered order: a SECONDARY_MARKET trade adds its
  volume to \<open>traded_volume\<close>, is passed to \<open>on_order_traded\<close>, and the order is erased
  exactly when the volumes then make up \<open>req.volume\<close>; ACQUIRED_STOCK, RELEASED_STOCK
  and CASH_SUBSTITUTION trades are passed to \<open>on_order_traded\<close> and the order stays
  registered with its volumes unchanged; a PRIMARY_MARKET trade is passed to
  \<open>on_order_traded\<close> and the order is erased (without \<open>on_order_completed\<close>).
\<close>

theorem trade_classification:
  assumes "find_order (order_map s) (trd_engine_order_id rsp) = Some order0"
    and "order1 = order0\<lparr>accepted := True, order_id := trd_order_id rsp\<rparr>"
    and "order2 = order1\<lparr>traded_volume := traded_volume order0 + trd_volume rsp\<rparr>"
  shows "(trade_type rsp = SECONDARY_MARKET \<longrightarrow>
            RiskOnOrderTraded order2 rsp \<in> set (new_events s (on_order_traded rsp s)) \<and>
            find_order (order_map (on_order_traded rsp s)) (trd_engine_order_id rsp) =
              (if traded_volume order2 + canceled_volume order2 = volume (req order2)
               then None else Some order2)) \<and>
         (trade_type rsp \<in> {ACQUIRED_STOCK, RELEASED_STOCK, CASH_SUBSTITUTION} \<longrightarrow>
            RiskOnOrderTraded order1 rsp \<in> set (new_events s (on_order_traded rsp s)) \<and>
            find_order (order_map (on_order_traded rsp s)) (trd_engine_order_id rsp) =
              Some order1) \<and>
         (trade_type rsp = PRIMARY_MARKET \<longrightarrow>
            RiskOnOrderTraded (order1\<lparr>traded_volume := trd_volume rsp\<rparr>) rsp
              \<in> set (new_events s (on_order_traded rsp s)) \<and>
            completed_hooks (new_events s (on_order_traded rsp s)) = [] \<and>
            find_order (order_map (on_order_traded rsp s)) (trd_engine_order_id rsp) = None)"
proof -
  have o2: "order2 = order0\<lparr>accepted := True, order_id := trd_order_id rsp,
                            traded_volume := traded_volume order0 + trd_volume rsp\<rparr>"
    using assms(2,3) by simp
  have "trade_type rsp = SECONDARY_MARKET \<longrightarrow>
            RiskOnOrderTraded order2 rsp \<in> set (new_events s (on_order_traded rsp s)) \<and>
            find_order (order_map (on_order_traded rsp s)) (trd_engine_order_id rsp) =
              (if traded_volume order2 + canceled_volume order2 = volume (req order2)
               then None else Some order2)"
    by (simp add: on_order_traded_def secondary_step [OF assms(1) o2] new_events_def
        find_assign find_erase)
  moreover have "trade_type rsp \<in> {ACQUIRED_STOCK, RELEASED_STOCK, CASH_SUBSTITUTION} \<longrightarrow>
            RiskOnOrderTraded order1 rsp \<in> set (new_events s (on_order_traded rsp s)) \<and>
            find_order (order_map (on_order_traded rsp s)) (trd_engine_order_id rsp) =
              Some order1"
    by (auto simp add: on_order_traded_def primary_step [OF assms(1,2)] new_events_def
        find_assign)
  moreover have "trade_type rsp = PRIMARY_MARKET \<longrightarrow>
            RiskOnOrderTraded (order1\<lparr>traded_volume := trd_volume rsp\<rparr>) rsp
              \<in> set (new_events s (on_order_traded rsp s)) \<and>
            completed_hooks (new_events s (on_order_traded rsp s)) = [] \<and>
            find_order (order_map (on_order_traded rsp s)) (trd_engine_order_id rsp) = None"
    by (simp add: on_order_traded_def primary_step [OF assms(1,2)] new_events_def
        find_erase)
  ultimately show ?thesis by blast
qed

theorem trade_classification_witness:
  "find_order (order_map scenario_accepted) (trd_engine_order_id (scenario_trade SECONDARY_MARKET 4)) =
     Some (scenario_order 10\<lparr>order_id := 555, accepted := True\<rparr>) \<and>
   find_order (order_map (on_order_traded (scenario_trade SECONDARY_MARKET 4) scenario_accepted)) 1 =
     Some (scenario_order 10\<lparr>order_id := 555, accepted := True, traded_volume := 4\<rparr>) \<and>
   find_order (order_map (on_order_traded (scenario_trade SECONDARY_MARKET 10) scenario_accepted)) 1 =
     None \<and>
   find_order (order_map (on_order_traded (scenario_trade ACQUIRED_STOCK 10) scenario_accepted)) 1 =
     Some (scenario_order 10\<lparr>order_id := 555, accepted := True\<rparr>) \<and>
   find_order (order_map (on_order_traded (scenario_trade RELEASED_STOCK 10) scenario_accepted)) 1 =
     Some (scenario_order 10\<lparr>order_id := 555, accepted := True\<rparr>) \<and>
   find_order (order_map (on_order_traded (scenario_trade CASH_SUBSTITUTION 10) scenario_accepted)) 1 =
     Some (scenario_order 10\<lparr>order_id := 555, accepted := True\<rparr>) \<and>
   find_order (order_map (on_order_traded (scenario_trade PRIMARY_MARKET 4) scenario_accepted)) 1 =
     None \<and>
   RiskOnOrderTraded (scenario_order 10\<lparr>order_id := 555, accepted := True, traded_volume := 4\<rparr>)
       (scenario_trade PRIMARY_MARKET 4)
     \<in> set (new_events scenario_accepted
              (on_order_traded (scenario_trade PRIMARY_MARKET 4) scenario_accepted))"
  using trade_classification
          [of scenario_accepted "scenario_trade SECONDARY_MARKET 4"
              "scenario_order 10\<lparr>order_id := 555, accepted := True\<rparr>"
              "scenario_order 10\<lparr>order_id := 555, accepted := True\<rparr>"
              "scenario_order 10\<lparr>order_id := 555, accepted := True, traded_volume := 4\<rparr>"]
        trade_classification
          [of scenario_accepted "scenario_trade SECONDARY_MARKET 10"
              "scenario_order 10\<lparr>order_id := 555, accepted := True\<rparr>"
              "scenario_order 10\<lparr>order_id := 555, accepted := True\<rparr>"
              "scenario_order 10\<lparr>order_id := 555, accepted := True, traded_volume := 10\<rparr>"]
        trade_classification
          [of scenario_accepted "scenario_trade ACQUIRED_STOCK 10"
              "scenario_order 10\<lparr>order_id := 555, accepted := True\<rparr>"
              "scenario_order 10\<lparr>order_id := 555, accepted := True\<rparr>"
              "scenario_order 10\<lparr>order_id := 555, accepted := True, traded_volume := 10\<rparr>"]
        trade_classification
          [of scenario_accepted "scenario_trade RELEASED_STOCK 10"
              "scenario_order 10\<lparr>order_id := 555, accepted := True\<rparr>"
              "scenario_order 10\<lparr>order_id := 555, accepted := True\<rparr>"
              "scenario_order 10\<lparr>order_id := 555, accepted := True, traded_volume := 10\<rparr>"]
        trade_classification
          [of scenario_accepted "scenario_trade CASH_SUBSTITUTION 10"
              "scenario_order 10\<lparr>order_id := 555, accepted := True\<rparr>"
              "scenario_order 10\<lparr>order_id := 555, accepted := True\<rparr>"
              "scenario_order 10\<lparr>order_id := 555, accepted := True, traded_volume := 10\<rparr>"]
        trade_classification
          [of scenario_accepted "scenario_trade PRIMARY_MARKET 4"
              "scenario_order 10\<lparr>order_id := 555, accepted := True\<rparr>"
              "scenario_order 10\<lparr>order_id := 555, accepted := True\<rparr>"
              "scenario_order 10\<lparr>order_id := 555, accepted := True, traded_volume := 4\<rparr>"]
  by (simp add: scenario_accepted_eval find_order_def scenario_order_def make_order_def
      scenario_trade_def scenario_cmd_def)

text \<open>
  C1, as the code has it. For a registered order: a secondary-market trade callback, or
  a cancel callback, after which \<open>traded_volume + canceled_volume = req.volume\<close> calls
  \<open>on_order_completed\<close> once and erases the order between taking and releasing the
  mutex. Over a run of callbacks in which the order is neither rejected nor traded on
  the primary market (and no new order is sent), \<open>on_order_completed\<close> is called for it
  at most once; and if the traded volumes plus the volume of the last cancel callback
  (each cancel callback overwrites \<open>canceled_volume\<close>) make up \<open>req.volume\<close>, the order
  is absent afterwards and \<open>on_order_completed\<close> was called for it exactly once.
  (\<open>registry_keyed\<close> holds in every state reached from the empty engine, by
  \<open>reachable_keyed\<close>.)
\<close>

theorem terminal_order_completed_and_erased:
  assumes "find_order (order_map s) k = Some order0"
    and "order_t = order0\<lparr>accepted := True, order_id := trd_order_id t,
                          traded_volume := traded_volume order0 + trd_volume t\<rparr>"
    and "order_c = order0\<lparr>canceled_volume := cxl_canceled_volume c\<rparr>"
  shows "(trd_engine_order_id t = k \<and> trade_type t = SECONDARY_MARKET \<and>
          traded_volume order_t + canceled_volume order_t = volume (req order_t) \<longrightarrow>
            find_order (order_map (on_order_traded t s)) k = None \<and>
            new_events s (on_order_traded t s) =
              [MutexLock] @
              (if accepted order0 then []
               else [RiskOnOrderAccepted (order0\<lparr>accepted := True\<rparr>), Log Info]) @
              [Log Info, RiskOnOrderTraded order_t t, Log Info, RiskOnOrderCompleted order_t,
               MutexUnlock]) \<and>
         (cxl_engine_order_id c = k \<and>
          traded_volume order_c + canceled_volume order_c = volume (req order_c) \<longrightarrow>
            find_order (order_map (on_order_canceled c s)) k = None \<and>
            new_events s (on_order_canceled c s) =
              [MutexLock, Log Info, RiskOnOrderCanceled order_c (cxl_canceled_volume c), Log Info,
               RiskOnOrderCompleted order_c, MutexUnlock]) \<and>
         (registry_keyed (order_map s) \<and> list_all (fills_and_cancels k) ins \<longrightarrow>
            length (completed_for k (new_events s (run env s ins))) \<le> 1) \<and>
         (registry_keyed (order_map s) \<and> list_all (fills_and_cancels k) ins \<and>
          list_ex (touches k) ins \<and>
          traded_total k (traded_volume order0) ins +
            last_canceled k (canceled_volume order0) ins = volume (req order0) \<longrightarrow>
            find_order (order_map (run env s ins)) k = None \<and>
            length (completed_for k (new_events s (run env s ins))) = 1)"
proof -
  have a: "trd_engine_order_id t = k \<and> trade_type t = SECONDARY_MARKET \<and>
          traded_volume order_t + canceled_volume order_t = volume (req order_t) \<longrightarrow>
            find_order (order_map (on_order_traded t s)) k = None \<and>
            new_events s (on_order_traded t s) =
              [MutexLock] @
              (if accepted order0 then []
               else [RiskOnOrderAccepted (order0\<lparr>accepted := True\<rparr>), Log Info]) @
              [Log Info, RiskOnOrderTraded order_t t, Log Info, RiskOnOrderCompleted order_t,
               MutexUnlock]"
  proof (intro impI, elim conjE)
    assume h: "trd_engine_order_id t = k" "trade_type t = SECONDARY_MARKET"
      "traded_volume order_t + canceled_volume order_t = volume (req order_t)"
    have f: "find_order (order_map s) (trd_engine_order_id t) = Some order0"
      using assms(1) h(1) by simp
    show "find_order (order_map (on_order_traded t s)) k = None \<and>
            new_events s (on_order_traded t s) =
              [MutexLock] @
              (if accepted order0 then []
               else [RiskOnOrderAccepted (order0\<lparr>accepted := True\<rparr>), Log Info]) @
              [Log Info, RiskOnOrderTraded order_t t, Log Info, RiskOnOrderCompleted order_t,
               MutexUnlock]"
      using h by (simp add: on_order_traded_def secondary_step [OF f assms(2)] find_erase
          new_events_def)
  qed
  have b: "cxl_engine_order_id c = k \<and>
          traded_volume order_c + canceled_volume order_c = volume (req order_c) \<longrightarrow>
            find_order (order_map (on_order_canceled c s)) k = None \<and>
            new_events s (on_order_canceled c s) =
              [MutexLock, Log Info, RiskOnOrderCanceled order_c (cxl_canceled_volume c), Log Info,
               RiskOnOrderCompleted order_c, MutexUnlock]"
  proof (intro impI, elim conjE)
    assume h: "cxl_engine_order_id c = k"
      "traded_volume order_c + canceled_volume order_c = volume (req order_c)"
    have f: "find_order (order_map s) (cxl_engine_order_id c) = Some order0"
      using assms(1) h(1) by simp
    show "find_order (order_map (on_order_canceled c s)) k = None \<and>
            new_events s (on_order_canceled c s) =
              [MutexLock, Log Info, RiskOnOrderCanceled order_c (cxl_canceled_volume c), Log Info,
               RiskOnOrderCompleted order_c, MutexUnlock]"
      using h by (simp add: canceled_step [OF f assms(3)] find_erase new_events_def)
  qed
  show ?thesis
    using a b completes_once [OF _ assms(1), of ins env] by blast
qed

theorem terminal_order_completed_and_erased_witness:
  "find_order (order_map scenario_sent) 1 = Some (scenario_order 10) \<and>
   registry_keyed (order_map scenario_sent) \<and>
   find_order (order_map (on_order_traded (scenario_trade SECONDARY_MARKET 10) scenario_sent)) 1 = None \<and>
   find_order (order_map (on_order_canceled (scenario_cancel 10) scenario_sent)) 1 = None \<and>
   list_all (fills_and_cancels 1)
     [Traded (scenario_trade SECONDARY_MARKET 3), Command (scenario_cmd 2 7 0 0 False),
      Canceled (scenario_cancel 7)] \<and>
   find_order (order_map (run scenario_env scenario_sent
     [Traded (scenario_trade SECONDARY_MARKET 3), Command (scenario_cmd 2 7 0 0 False),
      Canceled (scenario_cancel 7)])) 1 = None \<and>
   length (completed_for 1 (new_events scenario_sent (run scenario_env scenario_sent
     [Traded (scenario_trade SECONDARY_MARKET 3), Command (scenario_cmd 2 7 0 0 False),
      Canceled (scenario_cancel 7)]))) = 1"
  using terminal_order_completed_and_erased
          [of scenario_sent 1 "scenario_order 10"
              "scenario_order 10\<lparr>accepted := True, order_id := 555, traded_volume := 10\<rparr>"
              "scenario_trade SECONDARY_MARKET 10"
              "scenario_order 10\<lparr>canceled_volume := 10\<rparr>"
              "scenario_cancel 10"
              "[Traded (scenario_trade SECONDARY_MARKET 3), Command (scenario_cmd 2 7 0 0 False),
                Canceled (scenario_cancel 7)]"
              scenario_env]
  by (simp add: scenario_sent_eval find_order_def registry_keyed_def scenario_order_def
      make_order_def scenario_trade_def scenario_cancel_def scenario_cmd_def
      TRADER_CMD_MAGIC_def CMD_NEW_ORDER_def traded_total_def last_canceled_def)

text \<open>
  C1 as the specification states it fails where two cancel callbacks arrive: cancel 3,
  trade 3, cancel 4 sum to the requested 10, yet the order stays registered with
  \<open>traded_volume = 3\<close> and \<open>canceled_volume = 4\<close> and \<open>on_order_completed\<close> is never
  called.
\<close>

theorem repeated_cancel_counterexample:
  "list_all (fills_and_cancels 1)
     [Canceled (scenario_cancel 3), Traded (scenario_trade SECONDARY_MARKET 3),
      Canceled (scenario_cancel 4)] \<and>
   (3 :: i32) + 3 + 4 = volume (req (scenario_order 10)) \<and>
   find_order (order_map scenario_sent) 1 = Some (scenario_order 10) \<and>
   find_order (order_map (run scenario_env scenario_sent
     [Canceled (scenario_cancel 3), Traded (scenario_trade SECONDARY_MARKET 3),
      Canceled (scenario_cancel 4)])) 1 =
     Some (scenario_order 10\<lparr>order_id := 555, accepted := True, traded_volume := 3,
                              canceled_volume := 4\<rparr>) \<and>
   completed_hooks (new_events scenario_sent (run scenario_env scenario_sent
     [Canceled (scenario_cancel 3), Traded (scenario_trade SECONDARY_MARKET 3),
      Canceled (scenario_cancel 4)])) = []"
  by (simp add: scenario_sent_eval run_def on_order_canceled_def on_order_traded_def
      on_secondary_market_traded_def emit_def Let_def find_order_def assign_def erase_def
      new_events_def scenario_order_def make_order_def scenario_trade_def scenario_cancel_def
      scenario_cmd_def)

text \<open>
  C4. For a registered order that is not yet accepted, \<open>on_order_accepted\<close> sets
  \<open>accepted\<close> (and the broker's order id) and calls \<open>RiskManager::on_order_accepted\<close> once;
  a trade callback of any type does the same latch, calling the hook once with
  \<open>accepted\<close> set, and leaves the order accepted or erased. For an order that is already
  accepted, \<open>on_order_accepted\<close> only takes and releases the mutex, and a trade callback
  does not call the hook. Over a run of callbacks (and of commands other than new
  orders) the hook is called for the order at most once; exactly once when the run
  starts with its accept or trade callback; never when the order is already accepted.
\<close>

theorem acceptance_latched_once:
  assumes "registry_keyed (order_map s)"
    and "find_order (order_map s) k = Some order0"
  shows "(\<not> accepted order0 \<and> acc_engine_order_id a = k \<longrightarrow>
            on_order_accepted a s =
              s\<lparr>order_map :=
                   assign k (order0\<lparr>order_id := acc_order_id a, accepted := True\<rparr>) (order_map s),
                 trace := trace s @
                   [MutexLock,
                    RiskOnOrderAccepted (order0\<lparr>order_id := acc_order_id a, accepted := True\<rparr>),
                    Log Info, MutexUnlock]\<rparr>) \<and>
         (\<not> accepted order0 \<and> trd_engine_order_id t = k \<longrightarrow>
            accepted_hooks (new_events s (on_order_traded t s)) = [order0\<lparr>accepted := True\<rparr>] \<and>
            \<not> unaccepted (on_order_traded t s) k) \<and>
         (accepted order0 \<and> acc_engine_order_id a = k \<longrightarrow>
            on_order_accepted a s = s\<lparr>trace := trace s @ [MutexLock, MutexUnlock]\<rparr>) \<and>
         (accepted order0 \<and> trd_engine_order_id t = k \<longrightarrow>
            accepted_hooks (new_events s (on_order_traded t s)) = []) \<and>
         (list_all registers_nothing ins \<longrightarrow>
            length (accepted_for k (new_events s (run env s ins))) \<le> 1) \<and>
         (\<not> accepted order0 \<and> list_all registers_nothing ins \<and>
          (i = Accepted a \<and> acc_engine_order_id a = k \<or>
           i = Traded t \<and> trd_engine_order_id t = k) \<longrightarrow>
            length (accepted_for k (new_events s (run env s (i # ins)))) = 1) \<and>
         (accepted order0 \<and> list_all registers_nothing ins \<longrightarrow>
            accepted_for k (new_events s (run env s ins)) = [])"
proof -
  have id: "engine_order_id (req order0) = k"
    by (rule keyed_find [OF assms])
  have u: "unaccepted s k = (\<not> accepted order0)"
    using assms(2) by (simp add: unaccepted_def)
  have fa: "find_order (order_map s) (acc_engine_order_id a) = Some order0"
    if "acc_engine_order_id a = k"
    using that assms(2) by simp
  have ft: "find_order (order_map s) (trd_engine_order_id t) = Some order0"
    if "trd_engine_order_id t = k"
    using that assms(2) by simp
  have p1: "\<not> accepted order0 \<and> acc_engine_order_id a = k \<longrightarrow>
            on_order_accepted a s =
              s\<lparr>order_map :=
                   assign k (order0\<lparr>order_id := acc_order_id a, accepted := True\<rparr>) (order_map s),
                 trace := trace s @
                   [MutexLock,
                    RiskOnOrderAccepted (order0\<lparr>order_id := acc_order_id a, accepted := True\<rparr>),
                    Log Info, MutexUnlock]\<rparr>"
    using accepted_step [OF fa refl] by auto
  have p3: "accepted order0 \<and> acc_engine_order_id a = k \<longrightarrow>
            on_order_accepted a s = s\<lparr>trace := trace s @ [MutexLock, MutexUnlock]\<rparr>"
    using accepted_step [OF fa refl] by auto
  have hooks: "accepted_hooks (new_events s (on_order_traded t s)) =
                 (if accepted order0 then [] else [order0\<lparr>accepted := True\<rparr>])"
    and erased_or_latched: "\<not> unaccepted (on_order_traded t s) k"
    if h: "trd_engine_order_id t = k"
  proof -
    show "accepted_hooks (new_events s (on_order_traded t s)) =
                 (if accepted order0 then [] else [order0\<lparr>accepted := True\<rparr>])"
      by (cases "trade_type t = SECONDARY_MARKET")
         (simp_all add: on_order_traded_def secondary_step [OF ft [OF h] refl]
            primary_step [OF ft [OF h] refl] new_events_def)
    show "\<not> unaccepted (on_order_traded t s) k"
      using h
      by (cases "trade_type t = SECONDARY_MARKET")
         (simp_all add: on_order_traded_def secondary_step [OF ft [OF h] refl]
            primary_step [OF ft [OF h] refl] unaccepted_def find_assign find_erase)
  qed
  have p2: "\<not> accepted order0 \<and> trd_engine_order_id t = k \<longrightarrow>
            accepted_hooks (new_events s (on_order_traded t s)) = [order0\<lparr>accepted := True\<rparr>] \<and>
            \<not> unaccepted (on_order_traded t s) k"
    using hooks erased_or_latched by simp
  have p4: "accepted order0 \<and> trd_engine_order_id t = k \<longrightarrow>
            accepted_hooks (new_events s (on_order_traded t s)) = []"
    using hooks by simp
  have run_le: "length (accepted_for k (new_events s (run env s ins)))
                  \<le> (if unaccepted s k then 1 else 0)"
    if "list_all registers_nothing ins"
    using latch_run [OF assms(1) that, of k env] by (simp add: latch_kept_def)
  have p5: "list_all registers_nothing ins \<longrightarrow>
            length (accepted_for k (new_events s (run env s ins))) \<le> 1"
    using run_le by (cases "unaccepted s k") auto
  have p7: "accepted order0 \<and> list_all registers_nothing ins \<longrightarrow>
            accepted_for k (new_events s (run env s ins)) = []"
    using run_le u by auto
  have p6: "\<not> accepted order0 \<and> list_all registers_nothing ins \<and>
          (i = Accepted a \<and> acc_engine_order_id a = k \<or>
           i = Traded t \<and> trd_engine_order_id t = k) \<longrightarrow>
            length (accepted_for k (new_events s (run env s (i # ins)))) = 1"
  proof (intro impI, elim conjE)
    assume na: "\<not> accepted order0" and ins: "list_all registers_nothing ins"
      and i: "i = Accepted a \<and> acc_engine_order_id a = k \<or>
              i = Traded t \<and> trd_engine_order_id t = k"
    let ?s1 = "step env s i"
    have ri: "registers_nothing i" using i by auto
    have l1: "latch_kept k s ?s1"
      by (rule latch_step [OF assms(1) ri])
    have first: "length (accepted_for k (new_events s ?s1)) = 1"
      using i
    proof
      assume "i = Accepted a \<and> acc_engine_order_id a = k"
      then show ?thesis
        using p1 na id by (simp add: new_events_def accepted_for_def)
    next
      assume "i = Traded t \<and> trd_engine_order_id t = k"
      then show ?thesis
        using p2 na id by (simp add: accepted_for_def)
    qed
    have nu: "\<not> unaccepted ?s1 k"
      using l1 first u na by (simp add: latch_kept_def split: if_splits)
    have k1: "registry_keyed (order_map ?s1)"
      and t1: "trace ?s1 = trace s @ new_events s ?s1"
      using l1 by (simp_all add: latch_kept_def)
    have l2: "latch_kept k ?s1 (run env ?s1 ins)"
      by (rule latch_run [OF k1 ins])
    then have rest: "accepted_for k (new_events ?s1 (run env ?s1 ins)) = []"
      and t2: "trace (run env ?s1 ins) = trace ?s1 @ new_events ?s1 (run env ?s1 ins)"
      using nu by (simp_all add: latch_kept_def)
    have "new_events s (run env ?s1 ins) = new_events s ?s1 @ new_events ?s1 (run env ?s1 ins)"
      by (rule new_events_trans [OF t1 t2])
    then show "length (accepted_for k (new_events s (run env s (i # ins)))) = 1"
      using first rest by simp
  qed
  show ?thesis
    using p1 p2 p3 p4 p5 p6 p7 by blast
qed

theorem acceptance_latched_once_witness:
  "registry_keyed (order_map scenario_sent) \<and>
   find_order (order_map scenario_sent) 1 = Some (scenario_order 10) \<and>
   \<not> accepted (scenario_order 10) \<and>
   list_all registers_nothing
     [Accepted scenario_accept, Traded (scenario_trade SECONDARY_MARKET 6)] \<and>
   accepted_hooks (new_events scenario_sent
      (on_order_traded (scenario_trade SECONDARY_MARKET 4) scenario_sent)) =
     [scenario_order 10\<lparr>accepted := True\<rparr>] \<and>
   length (accepted_for 1 (new_events scenario_sent (run scenario_env scenario_sent
     (Traded (scenario_trade SECONDARY_MARKET 4) #
      [Accepted scenario_accept, Traded (scenario_trade SECONDARY_MARKET 6)])))) = 1 \<and>
   registry_keyed (order_map scenario_accepted) \<and>
   find_order (order_map scenario_accepted) 1 =
     Some (scenario_order 10\<lparr>order_id := 555, accepted := True\<rparr>) \<and>
   on_order_accepted scenario_accept scenario_accepted =
     scenario_accepted\<lparr>trace := trace scenario_accepted @ [MutexLock, MutexUnlock]\<rparr> \<and>
   accepted_for 1 (new_events scenario_accepted (run scenario_env scenario_accepted
     [Accepted scenario_accept, Traded (scenario_trade SECONDARY_MARKET 6)])) = []"
proof -
  have k1: "registry_keyed (order_map scenario_sent)"
    and f1: "find_order (order_map scenario_sent) 1 = Some (scenario_order 10)"
    and k2: "registry_keyed (order_map scenario_accepted)"
    and f2: "find_order (order_map scenario_accepted) 1 =
               Some (scenario_order 10\<lparr>order_id := 555, accepted := True\<rparr>)"
    by (simp_all add: scenario_sent_eval scenario_accepted_eval find_order_def
        registry_keyed_def scenario_order_def make_order_def)
  have na: "\<not> accepted (scenario_order 10)"
    and ac: "accepted (scenario_order 10\<lparr>order_id := 555, accepted := True\<rparr>)"
    and ids: "trd_engine_order_id (scenario_trade SECONDARY_MARKET 4) = 1"
      "acc_engine_order_id scenario_accept = 1"
    and ins: "list_all registers_nothing
                [Accepted scenario_accept, Traded (scenario_trade SECONDARY_MARKET 6)]"
    by (simp_all add: scenario_order_def make_order_def scenario_trade_def scenario_accept_def)
  note t1 = acceptance_latched_once
          [OF k1 f1, of scenario_accept "scenario_trade SECONDARY_MARKET 4"
              "[Accepted scenario_accept, Traded (scenario_trade SECONDARY_MARKET 6)]"
              scenario_env "Traded (scenario_trade SECONDARY_MARKET 4)"]
  note t2 = acceptance_latched_once
          [OF k2 f2, of scenario_accept "scenario_trade SECONDARY_MARKET 4"
              "[Accepted scenario_accept, Traded (scenario_trade SECONDARY_MARKET 6)]"
              scenario_env "Traded (scenario_trade SECONDARY_MARKET 4)"]
  show ?thesis
    using k1 f1 k2 f2 na ac ids ins t1 t2 by blast
qed

section \<open>Invariants of the registry\<close>

text \<open>
  C2, as the code has it. After any sequence of commands and gateway callbacks from the
  empty engine, every order of the registry still has status \<open>SUBMITTING\<close>, accepted or
  not, and its volumes make up \<open>req.volume\<close> only if no trade or cancel has touched it.
  The bound \<open>traded_volume + canceled_volume \<le> req.volume\<close> holds for the runs in which
  every submitted volume and every reported volume is non-negative and no trade or
  cancel callback reports more than the order has left; the engine does not check it.
\<close>

theorem registry_invariants_as_coded:
  "every_order order_ok (order_map (run env init_engine ins)) \<and>
   (run_within env init_engine ins \<longrightarrow>
      every_order within_volume (order_map (run env init_engine ins)))"
proof -
  have "every_order order_ok (order_map init_engine)"
    and "every_order within_volume (order_map init_engine)"
    by (simp_all add: every_order_def init_engine_def)
  then show ?thesis
    using run_order_ok [of init_engine env ins] run_within_volume [of init_engine env ins]
    by blast
qed

theorem registry_invariants_as_coded_witness:
  "run_within scenario_env init_engine
     [Command (scenario_cmd 1 7 10 0 False), Accepted scenario_accept,
      Traded (scenario_trade SECONDARY_MARKET 4)] \<and>
   order_map (run scenario_env init_engine
     [Command (scenario_cmd 1 7 10 0 False), Accepted scenario_accept,
      Traded (scenario_trade SECONDARY_MARKET 4)]) =
     [(1, scenario_order 10\<lparr>order_id := 555, accepted := True, traded_volume := 4\<rparr>)] \<and>
   order_ok (scenario_order 10\<lparr>order_id := 555, accepted := True, traded_volume := 4\<rparr>) \<and>
   within_volume (scenario_order 10\<lparr>order_id := 555, accepted := True, traded_volume := 4\<rparr>)"
  using registry_invariants_as_coded
          [of scenario_env
              "[Command (scenario_cmd 1 7 10 0 False), Accepted scenario_accept,
                Traded (scenario_trade SECONDARY_MARKET 4)]"]
  by (simp add: run_def execute_cmd_def send_order_def send_order_push_def
      on_order_accepted_def on_order_traded_def on_secondary_market_traded_def
      emit_def Let_def scenario_env_def scenario_cmd_def scenario_order_def
      scenario_accept_def scenario_trade_def init_engine_def make_order_def
      scenario_contract_def TRADER_CMD_MAGIC_def CMD_NEW_ORDER_def NO_ERROR_def
      find_order_def emplace_def assign_def every_order_def order_ok_def within_volume_def)

text \<open>
  C2 as the specification states it fails: after the order of volume 10 is sent and
  accepted, a secondary-market trade of 15 leaves it registered with
  \<open>traded_volume = 15\<close>, and it is accepted while its status is \<open>SUBMITTING\<close>.
\<close>

theorem registry_invariants_counterexample:
  "find_order (order_map (run scenario_env init_engine
     [Command (scenario_cmd 1 7 10 0 False), Accepted scenario_accept,
      Traded (scenario_trade SECONDARY_MARKET 15)])) 1 =
     Some (scenario_order 10\<lparr>order_id := 555, accepted := True, traded_volume := 15\<rparr>) \<and>
   \<not> (sint (traded_volume (scenario_order 10\<lparr>order_id := 555, accepted := True, traded_volume := 15\<rparr>)) +
      sint (canceled_volume (scenario_order 10\<lparr>order_id := 555, accepted := True, traded_volume := 15\<rparr>))
      \<le> sint (volume (req (scenario_order 10\<lparr>order_id := 555, accepted := True, traded_volume := 15\<rparr>)))) \<and>
   accepted (scenario_order 10\<lparr>order_id := 555, accepted := True, traded_volume := 15\<rparr>) \<and>
   status (scenario_order 10\<lparr>order_id := 555, accepted := True, traded_volume := 15\<rparr>) = SUBMITTING"
  by (simp add: run_def execute_cmd_def send_order_def send_order_push_def
      on_order_accepted_def on_order_traded_def on_secondary_market_traded_def
      emit_def Let_def scenario_env_def scenario_cmd_def scenario_order_def
      scenario_accept_def scenario_trade_def init_engine_def make_order_def
      scenario_contract_def TRADER_CMD_MAGIC_def CMD_NEW_ORDER_def NO_ERROR_def
      find_order_def emplace_def assign_def)

end
